theory Spec2Isabelle
  imports Complex_Main "HOL-Library.Signed_Division"
begin

section \<open>The propagation engine \<^verbatim>\<open>CRT_Base<T,dim,no_int_states>\<close> of CRT_Base.h\<close>

text \<open>
  A shallow embedding of the class template \<^verbatim>\<open>CRT_Base\<close>. Conventions:
  \<^item> a C++ \<^verbatim>\<open>double\<close> is a \<^typ>\<open>real\<close>. The arithmetic on the fields, the tables
    and the simulated time is evaluated exactly: rounding, infinities and NaN are not
    modelled there. The scheduler's count of iterations and its test of the stage's
    duration (lines 736 and 746-748) depend on how a quotient and a product of doubles
    are rounded: there the result is rounded to a double (\<open>fl_round\<close> below), the
    members of a sequence item being doubles;
  \<^item> an \<^verbatim>\<open>fftw_complex\<close> (a \<^verbatim>\<open>double[2]\<close>) is a pair (real part, imaginary part);
  \<^item> the OpenMP loops write disjoint array cells per iteration (or are sum reductions),
    so they are modelled by their sequential execution;
  \<^item> a \<^verbatim>\<open>throw\<close>, an \<^verbatim>\<open>exit\<close>, a failed \<^verbatim>\<open>assert\<close> and an out-of-bounds
    access are values of the type \<open>failure\<close>; a method that can fail returns either
    \<open>Inl\<close> of the failure and the state reached when it happened, or \<open>Inr\<close> of its
    result and final state;
  \<^item> the object's fields, the files it writes and the two output streams form one
    record, passed in and returned;
  \<^item> an array is a list. Where a loop of the source reads or writes the cell of its own
    index, the model reads with \<open>!\<close> and writes with a list update: on arrays of the
    sizes the constructor and \<^verbatim>\<open>Init_Potential\<close> allocate (\<open>wf_fields\<close>, \<open>wf_tables\<close> and
    \<open>wf_potential\<close> below) every such access is in bounds, and the theorems about the
    cells assume these sizes. An index that comes from a caller is checked, and out of
    bounds is the failure \<open>Undefined_Behaviour\<close>.
\<close>

subsection \<open>Failures\<close>

datatype failure =
    Thrown string           \<comment> \<open>\<^verbatim>\<open>throw std::string(...)\<close>: an exception a caller can catch\<close>
  | Terminate               \<comment> \<open>\<^verbatim>\<open>std::terminate()\<close>: \<^verbatim>\<open>throw;\<close> with no exception being handled\<close>
  | Exit_Failure            \<comment> \<open>\<^verbatim>\<open>exit(EXIT_FAILURE)\<close>\<close>
  | Assert_Abort            \<comment> \<open>a failed \<^verbatim>\<open>assert\<close>\<close>
  | Library_Exception string  \<comment> \<open>an exception thrown inside a library call\<close>
  | Undefined_Behaviour     \<comment> \<open>an array read or written outside its bounds, a division by zero,
                                a conversion to \<^verbatim>\<open>int\<close> out of range\<close>

definition endl :: string where
  "endl = [CHR 0x0A]"

subsection \<open>Points, headers, sequence items\<close>

type_synonym fftw_complex = "real \<times> real"

type_synonym CPoint = "real list"

text \<open>
  Modelled from the spec: the class \<^verbatim>\<open>CPoint<dim>\<close> is declared outside this file
  (a vector type with component access, dot product and scaling). \<open>CPoint_scale\<close> is
  \<^verbatim>\<open>k.scale(a)\<close>, the component-wise product, and \<open>CPoint_dot\<close> is \<^verbatim>\<open>operator*\<close>, the
  dot product, so that \<^verbatim>\<open>k.scale(alpha)*k\<close> is \<open>k \<cdot> diag(alpha) \<cdot> k\<close>.
\<close>

definition CPoint_scale :: "CPoint \<Rightarrow> CPoint \<Rightarrow> CPoint" where
  "CPoint_scale k a = map (\<lambda>(x, y). x * y) (zip k a)"

definition CPoint_dot :: "CPoint \<Rightarrow> CPoint \<Rightarrow> real" where
  "CPoint_dot a b = sum_list (map (\<lambda>(x, y). x * y) (zip a b))"

text \<open>
  Modelled from the spec: \<^verbatim>\<open>generic_header\<close>, the enumeration \<^verbatim>\<open>freq\<close> and
  \<^verbatim>\<open>sequence_item\<close> are declared outside this file. Of the header, the fields this file
  reads or writes (dimensionality, simulated time, time step); of the cadences, the
  values \<^verbatim>\<open>freq::each\<close>, \<^verbatim>\<open>freq::last\<close> and \<^verbatim>\<open>freq::packed\<close> the scheduler tests and one
  more for "never"; of a sequence item, the fields the scheduler reads.
\<close>

record generic_header =
  nDims :: int
  header_t :: real
  header_dt :: real

datatype freq = freq_none | freq_each | freq_last | freq_packed

record sequence_item =
  seq_name :: string
  seq_content :: string
  seq_comp :: int
  seq_duration :: "real list"
  seq_dt :: real
  seq_Nk :: int
  seq_output_freq :: freq
  seq_compute_pn_freq :: freq
  seq_custom_freq :: freq

subsection \<open>The object and its environment\<close>

text \<open>
  The members \<^verbatim>\<open>m_header\<close>, \<^verbatim>\<open>m_no_of_pts\<close>, \<^verbatim>\<open>m_ar\<close> and \<^verbatim>\<open>m_ar_k\<close> are inherited from
  \<^verbatim>\<open>CRT_shared\<close>; the others are those of lines 86-129 (the map of step functions and
  the custom function, being functions on the object, are given further down).
  A file holds the frames written to it, in order: a frame is one header followed by one
  field. \<open>fs\<close> maps the name of every existing file to its frames; \<open>fs_fail\<close> holds for
  the names that cannot be opened for writing. \<open>cout\<close> and \<open>cerr\<close> hold one entry for
  every output statement executed.
\<close>

type_synonym frame = "generic_header \<times> fftw_complex list"

record CRT_Base =
  m_header :: generic_header
  m_no_of_pts :: nat
  m_ar :: real
  m_ar_k :: real
  m_alpha :: CPoint
  m_full_step :: "fftw_complex list"
  m_half_step :: "fftw_complex list"
  m_potenial_initialized :: bool
  m_gs :: "real list"
  m_fields :: "fftw_complex list list"
  m_Potential :: "real list list"
  fs :: "string \<Rightarrow> frame list option"
  fs_fail :: "string \<Rightarrow> bool"
  cout :: "string list"
  cerr :: "string list"

text \<open>
  The template parameters: the integers \<^verbatim>\<open>dim\<close> and \<^verbatim>\<open>no_int_states\<close>, and of the class
  \<^verbatim>\<open>T\<close> (declared outside this file) the methods the engine calls: the in-place
  Fourier transform \<^verbatim>\<open>ft(dir)\<close> on the data of a field, and the coordinate lookups
  \<^verbatim>\<open>Get_k\<close> and \<^verbatim>\<open>Get_x\<close>. With them come the library's number formatting:
  \<open>show_double\<close> for \<^verbatim>\<open>ostream << double\<close>, \<open>to_string\<close> for \<^verbatim>\<open>std::to_string\<close>
  and \<open>fmt_3f\<close> for the conversion \<^verbatim>\<open>%.3f\<close>; \<open>rdstate\<close> is the state an output stream
  reports when its file could not be opened, \<open>oor_what\<close> the text of
  \<^verbatim>\<open>std::out_of_range::what()\<close>, \<open>strtk_parse\<close> is \<^verbatim>\<open>strtk::parse\<close> with the delimiter
  \<^verbatim>\<open>","\<close> and \<open>stod\<close> is \<^verbatim>\<open>std::stod\<close> (\<open>None\<close> when it throws).
\<close>

record tparams =
  dim :: nat
  no_int_states :: nat
  ft :: "int \<Rightarrow> fftw_complex list \<Rightarrow> fftw_complex list"
  Get_k :: "nat \<Rightarrow> CPoint"
  Get_x :: "nat \<Rightarrow> CPoint"
  show_double :: "real \<Rightarrow> string"
  to_string :: "real \<Rightarrow> string"
  fmt_3f :: "real \<Rightarrow> string"
  rdstate :: int
  oor_what :: string
  strtk_parse :: "string \<Rightarrow> string list"
  stod :: "string \<Rightarrow> real option"

text \<open>
  \<^verbatim>\<open>std::array<X,n>::operator[]\<close>: the element inside the bounds, \<open>None\<close> (undefined
  behaviour) outside.
\<close>

definition array_at :: "nat \<Rightarrow> 'a list \<Rightarrow> int \<Rightarrow> 'a option" where
  "array_at n xs i = (if 0 \<le> i \<and> i < int n then Some (xs ! nat i) else None)"

text \<open>A counted loop \<^verbatim>\<open>for (l = 0; l < n; l++)\<close> over a state.\<close>

definition for_upto :: "nat \<Rightarrow> (nat \<Rightarrow> 's \<Rightarrow> 's) \<Rightarrow> 's \<Rightarrow> 's" where
  "for_upto n body s = fold body [0..<n] s"

subsection \<open>Printing integers\<close>

text \<open>The decimal digits of a natural number, and \<^verbatim>\<open>%d\<close> of an \<^verbatim>\<open>int\<close>.\<close>

definition digit_char :: "nat \<Rightarrow> char" where
  "digit_char d = char_of (48 + d)"

fun show_nat :: "nat \<Rightarrow> string" where
  "show_nat n = (if n < 10 then [digit_char n] else show_nat (n div 10) @ [digit_char (n mod 10)])"

declare show_nat.simps [simp del]

definition show_int :: "int \<Rightarrow> string" where
  "show_int i = (if i < 0 then CHR ''-'' # show_nat (nat (- i)) else show_nat (nat i))"

subsection \<open>Rounding to a double\<close>

text \<open>
  The result of an arithmetic operation on doubles is the exact result rounded to
  binary64 as IEEE 754 prescribes, to the nearest double with ties to the even one.
  \<open>fl_exponent x\<close> is the binary exponent \<open>e\<close> of a nonzero \<open>x\<close>, the integer with
  \<open>2^e \<le> |x| < 2^(e+1)\<close>; the doubles of that magnitude are the integer multiples of
  \<open>2^(e-52)\<close>, and of \<open>2^-1074\<close> below \<open>2^-1022\<close>; \<open>fl_round x\<close> is the nearest of
  them. A result of magnitude \<open>2^1024\<close> or more stands for an infinity. A double is a
  number that the rounding returns unchanged.
\<close>

function ilog2 :: "int \<Rightarrow> int" where
  "ilog2 n = (if n < 2 then 0 else 1 + ilog2 (n div 2))"
  by pat_completeness auto
termination
  by (relation "measure nat") auto

declare ilog2.simps [simp del]

definition fl_exponent :: "real \<Rightarrow> int" where
  "fl_exponent x =
     (if 1 \<le> \<bar>x\<bar> then ilog2 \<lfloor>\<bar>x\<bar>\<rfloor> else - ilog2 (\<lceil>1 / \<bar>x\<bar>\<rceil> - 1) - 1)"

definition round_half_even :: "real \<Rightarrow> int" where
  "round_half_even y =
     (let f = \<lfloor>y\<rfloor>; r = y - of_int f
      in if r < 1 / 2 then f else if 1 / 2 < r then f + 1 else if even f then f else f + 1)"

definition fl_round :: "real \<Rightarrow> real" where
  "fl_round x =
     (if x = 0 then 0
      else (let ulp = 2 powi (max (fl_exponent x) (- 1022) - 52)
            in of_int (round_half_even (x / ulp)) * ulp))"

definition is_double :: "real \<Rightarrow> bool" where
  "is_double x = (fl_round x = x)"

subsection \<open>Operator tables\<close>

text \<open>
  \<^verbatim>\<open>Init\<close> (lines 242-264). The momentum coordinate is that of \<^verbatim>\<open>m_fields[0]\<close>, whose grid
  all fields share.
\<close>

definition Init_body :: "tparams \<Rightarrow> CRT_Base \<Rightarrow> nat \<Rightarrow> CRT_Base \<Rightarrow> CRT_Base" where
  "Init_body P this i e =
     (let dt = - header_dt (m_header this);
          k = Get_k P i;
          phi = dt * CPoint_dot (CPoint_scale k (m_alpha this)) k
      in e\<lparr> m_half_step := (m_half_step e)[i := (cos (0.5 * phi), sin (0.5 * phi))],
            m_full_step := (m_full_step e)[i := (cos phi, sin phi)] \<rparr>)"

definition Init :: "tparams \<Rightarrow> CRT_Base \<Rightarrow> CRT_Base" where
  "Init P e = for_upto (m_no_of_pts e) (Init_body P e) e"

subsection \<open>The external potential\<close>

text \<open>\<^verbatim>\<open>Init_Potential\<close> (lines 266-274): \<^verbatim>\<open>resize(m_no_of_pts, 0)\<close> on every vector.\<close>

definition resize :: "nat \<Rightarrow> 'a \<Rightarrow> 'a list \<Rightarrow> 'a list" where
  "resize n v xs = take n xs @ replicate (n - length xs) v"

definition Init_Potential :: "CRT_Base \<Rightarrow> CRT_Base" where
  "Init_Potential e =
     e\<lparr> m_Potential := map (resize (m_no_of_pts e) 0) (m_Potential e),
        m_potenial_initialized := True \<rparr>"

text \<open>
  \<^verbatim>\<open>Setup_Potential\<close> (lines 276-288). The statement \<^verbatim>\<open>throw;\<close> has no operand: it
  rethrows the exception being handled, and calls \<^verbatim>\<open>std::terminate\<close> when there is
  none. \<open>handled\<close> is the exception being handled at the call, if any. The assertions
  are those of the source (compiled in, that is without \<^verbatim>\<open>NDEBUG\<close>), the second one as
  it is written: it bounds \<^verbatim>\<open>comp\<close> (here \<open>c\<close>), not \<^verbatim>\<open>index\<close>.
\<close>

definition Setup_Potential ::
  "tparams \<Rightarrow> failure option \<Rightarrow> CRT_Base \<Rightarrow> int \<Rightarrow> int \<Rightarrow> real
     \<Rightarrow> failure \<times> CRT_Base + CRT_Base" where
  "Setup_Potential P handled e c index val =
     (if m_potenial_initialized e = False then
        (let e1 = e\<lparr> cerr := cerr e @
                    [''Potential not initialized. You forgot to invoke Init_Potential.'' @ endl] \<rparr>
         in case handled of None \<Rightarrow> Inl (Terminate, e1) | Some x \<Rightarrow> Inl (x, e1))
      else if \<not> (c > -1 \<and> c < int (no_int_states P)) then Inl (Assert_Abort, e)
      else if \<not> (index > -1 \<and> c < int (m_no_of_pts e)) then Inl (Assert_Abort, e)
      else if \<not> (nat index < length (m_Potential e ! nat c)) then Inl (Undefined_Behaviour, e)
      else Inr (e\<lparr> m_Potential :=
                     (m_Potential e)[nat c := (m_Potential e ! nat c)[nat index := val]] \<rparr>))"

subsection \<open>The step operators\<close>

text \<open>
  The loop body shared by \<^verbatim>\<open>Do_FT_Step_full\<close> and \<^verbatim>\<open>Do_FT_Step_half\<close>: the field value
  at \<open>l\<close> times the table entry at \<open>l\<close>, with the temporary \<^verbatim>\<open>tmp1\<close>.
\<close>

definition mult_table :: "fftw_complex list \<Rightarrow> nat \<Rightarrow> fftw_complex list \<Rightarrow> fftw_complex list" where
  "mult_table tab l Psi =
     (let tmp1 = fst (Psi ! l);
          re = fst (Psi ! l) * fst (tab ! l) - snd (Psi ! l) * snd (tab ! l);
          im = snd (Psi ! l) * fst (tab ! l) + tmp1 * snd (tab ! l)
      in Psi[l := (re, im)])"

definition apply_table :: "nat \<Rightarrow> nat \<Rightarrow> fftw_complex list \<Rightarrow> fftw_complex list list \<Rightarrow> fftw_complex list list" where
  "apply_table n_states n_pts tab fl0 =
     for_upto n_states (\<lambda>i fl. fl[i := for_upto n_pts (mult_table tab) (fl ! i)]) fl0"

definition ft_all :: "tparams \<Rightarrow> int \<Rightarrow> fftw_complex list list \<Rightarrow> fftw_complex list list" where
  "ft_all P dir fl0 = for_upto (no_int_states P) (\<lambda>c fl. fl[c := ft P dir (fl ! c)]) fl0"

text \<open>\<^verbatim>\<open>Do_FT_Step_full\<close> (lines 326-352).\<close>

definition Do_FT_Step_full :: "tparams \<Rightarrow> CRT_Base \<Rightarrow> CRT_Base" where
  "Do_FT_Step_full P e =
     (let e1 = e\<lparr> m_fields := ft_all P (-1) (m_fields e) \<rparr>;
          e2 = e1\<lparr> m_fields :=
                 apply_table (no_int_states P) (m_no_of_pts e1) (m_full_step e1) (m_fields e1) \<rparr>;
          e3 = e2\<lparr> m_fields := ft_all P 1 (m_fields e2) \<rparr>
      in e3\<lparr> m_header := (m_header e3)\<lparr> header_t :=
                 header_t (m_header e3) + header_dt (m_header e3) \<rparr> \<rparr>)"

text \<open>\<^verbatim>\<open>Do_FT_Step_half\<close> (lines 356-382).\<close>

definition Do_FT_Step_half :: "tparams \<Rightarrow> CRT_Base \<Rightarrow> CRT_Base" where
  "Do_FT_Step_half P e =
     (let e1 = e\<lparr> m_fields := ft_all P (-1) (m_fields e) \<rparr>;
          e2 = e1\<lparr> m_fields :=
                 apply_table (no_int_states P) (m_no_of_pts e1) (m_half_step e1) (m_fields e1) \<rparr>;
          e3 = e2\<lparr> m_fields := ft_all P 1 (m_fields e2) \<rparr>
      in e3\<lparr> m_header := (m_header e3)\<lparr> header_t :=
                 header_t (m_header e3) + 0.5 * header_dt (m_header e3) \<rparr> \<rparr>)"

text \<open>
  \<^verbatim>\<open>Do_NL_Step\<close> (lines 386-435). \<open>NL_phi\<close> is the body of the first inner loop for the
  state \<open>i\<close> at the point \<open>l\<close>: the value left in \<^verbatim>\<open>phi[i]\<close>. The branch for a positive
  density holds comments only. The array \<^verbatim>\<open>phi\<close> is not initialized in the source; every
  cell is written before it is read.
\<close>

definition NL_phi :: "CRT_Base \<Rightarrow> real \<Rightarrow> fftw_complex list list \<Rightarrow> nat \<Rightarrow> nat \<Rightarrow> real" where
  "NL_phi e dt Psi l i =
     (let phi0 = (if m_potenial_initialized e then m_Potential e ! i ! l else 0);
          tmp_density = fst (Psi ! i ! l) * fst (Psi ! i ! l) + snd (Psi ! i ! l) * snd (Psi ! i ! l);
          phi1 = (if tmp_density \<le> 0.0 then phi0 + 0.0 else phi0)
      in phi1 * dt)"

definition NL_rotate :: "real list \<Rightarrow> nat \<Rightarrow> nat \<Rightarrow> fftw_complex list list \<Rightarrow> fftw_complex list list" where
  "NL_rotate phi l i Psi =
     (let im1 = sin (phi ! i);
          re1 = cos (phi ! i);
          tmp1 = fst (Psi ! i ! l);
          re = fst (Psi ! i ! l) * re1 - snd (Psi ! i ! l) * im1;
          im = snd (Psi ! i ! l) * re1 + tmp1 * im1
      in Psi[i := (Psi ! i)[l := (re, im)]])"

definition NL_point :: "tparams \<Rightarrow> CRT_Base \<Rightarrow> real \<Rightarrow> nat \<Rightarrow> fftw_complex list list \<Rightarrow> fftw_complex list list" where
  "NL_point P e dt l Psi =
     (let phi = for_upto (no_int_states P) (\<lambda>i phi. phi[i := NL_phi e dt Psi l i])
                  (replicate (no_int_states P) 0)
      in for_upto (no_int_states P) (NL_rotate phi l) Psi)"

definition Do_NL_Step :: "tparams \<Rightarrow> CRT_Base \<Rightarrow> CRT_Base" where
  "Do_NL_Step P e =
     (let dt = - header_dt (m_header e)
      in e\<lparr> m_fields := for_upto (m_no_of_pts e) (NL_point P e dt) (m_fields e) \<rparr>)"

subsection \<open>Methods that take a component index\<close>

text \<open>
  The guard the methods below share, as each of them writes it:
  \<^verbatim>\<open>if ( comp<0 || comp>no_int_states ) throw std::string("Error in " +
  std::string(__func__) + ": comp out of bounds\n");\<close>
\<close>

definition comp_error :: "string \<Rightarrow> failure" where
  "comp_error func = Thrown (''Error in '' @ func @ '': comp out of bounds'' @ endl)"

text \<open>\<^verbatim>\<open>Setup_Momentum\<close> (lines 442-467).\<close>

definition Momentum_body :: "tparams \<Rightarrow> CPoint \<Rightarrow> nat \<Rightarrow> fftw_complex list \<Rightarrow> fftw_complex list" where
  "Momentum_body P px l Psi =
     (let x = Get_x P l;
          im = sin (CPoint_dot px x);
          re = cos (CPoint_dot px x);
          re2 = fst (Psi ! l);
          im2 = snd (Psi ! l)
      in Psi[l := (re2 * re - im2 * im, re2 * im + im2 * re)])"

definition Setup_Momentum :: "tparams \<Rightarrow> CRT_Base \<Rightarrow> CPoint \<Rightarrow> int \<Rightarrow> failure \<times> CRT_Base + CRT_Base" where
  "Setup_Momentum P e px c =
     (if c < 0 \<or> c > int (no_int_states P) then Inl (comp_error ''Setup_Momentum'', e)
      else case array_at (no_int_states P) (m_fields e) c of
             None \<Rightarrow> Inl (Undefined_Behaviour, e)
           | Some Psi \<Rightarrow>
               Inr (e\<lparr> m_fields :=
                      (m_fields e)[nat c := for_upto (m_no_of_pts e) (Momentum_body P px) Psi] \<rparr>))"

text \<open>
  The reduction of \<^verbatim>\<open>Expval_Position\<close> and \<^verbatim>\<open>Expval_Momentum\<close>, run by one thread
  (\<^verbatim>\<open>nthreads = 1\<close>, \<^verbatim>\<open>ithread = 0\<close>): \<open>coord l\<close> is \<^verbatim>\<open>Get_x(l)\<close> or \<^verbatim>\<open>Get_k(l)\<close>. The first
  loop fills \<^verbatim>\<open>tmp\<close>, the second adds it to \<^verbatim>\<open>res\<close>.
\<close>

definition Expval_tmp :: "nat \<Rightarrow> nat \<Rightarrow> (nat \<Rightarrow> CPoint) \<Rightarrow> fftw_complex list \<Rightarrow> real list" where
  "Expval_tmp d n_pts coord Psi =
     for_upto n_pts
       (\<lambda>l tmp.
          let x = coord l;
              den = fst (Psi ! l) * fst (Psi ! l) + snd (Psi ! l) * snd (Psi ! l)
          in for_upto d (\<lambda>i tmp. tmp[i := tmp ! i + (x ! i) * den]) tmp)
       (replicate d 0)"

definition Expval_res :: "nat \<Rightarrow> real list \<Rightarrow> real list" where
  "Expval_res d tmp = for_upto d (\<lambda>i res. res[i := res ! i + tmp ! i]) (replicate d 0)"

text \<open>\<^verbatim>\<open>Expval_Position\<close> (lines 474-519); the result is the new \<^verbatim>\<open>retval\<close>.\<close>

definition Expval_Position :: "tparams \<Rightarrow> CRT_Base \<Rightarrow> int \<Rightarrow> failure \<times> CRT_Base + CPoint \<times> CRT_Base" where
  "Expval_Position P e c =
     (if c < 0 \<or> c > int (no_int_states P) then Inl (comp_error ''Expval_Position'', e)
      else case array_at (no_int_states P) (m_fields e) c of
             None \<Rightarrow> Inl (Undefined_Behaviour, e)
           | Some Psi \<Rightarrow>
               (let res = Expval_res (dim P) (Expval_tmp (dim P) (m_no_of_pts e) (Get_x P) Psi)
                in Inr (map (\<lambda>i. m_ar e * res ! i) [0..<dim P], e)))"

text \<open>\<^verbatim>\<open>Expval_Momentum\<close> (lines 526-574).\<close>

definition Expval_Momentum :: "tparams \<Rightarrow> CRT_Base \<Rightarrow> int \<Rightarrow> failure \<times> CRT_Base + CPoint \<times> CRT_Base" where
  "Expval_Momentum P e c =
     (if c < 0 \<or> c > int (no_int_states P) then Inl (comp_error ''Expval_Momentum'', e)
      else case array_at (no_int_states P) (m_fields e) c of
             None \<Rightarrow> Inl (Undefined_Behaviour, e)
           | Some Psi0 \<Rightarrow>
               (let e1 = e\<lparr> m_fields := (m_fields e)[nat c := ft P (-1) Psi0] \<rparr>;
                    Psi = m_fields e1 ! nat c;
                    res = Expval_res (dim P) (Expval_tmp (dim P) (m_no_of_pts e1) (Get_k P) Psi);
                    e2 = e1\<lparr> m_fields := (m_fields e1)[nat c := ft P 1 (m_fields e1 ! nat c)] \<rparr>
                in Inr (map (\<lambda>i. m_ar_k e2 * res ! i) [0..<dim P], e2)))"

text \<open>\<^verbatim>\<open>Get_Particle_Number\<close> (lines 580-593).\<close>

definition Get_Particle_Number :: "tparams \<Rightarrow> CRT_Base \<Rightarrow> int \<Rightarrow> failure \<times> CRT_Base + real \<times> CRT_Base" where
  "Get_Particle_Number P e c =
     (if c < 0 \<or> c > int (no_int_states P) then Inl (comp_error ''Get_Particle_Number'', e)
      else case array_at (no_int_states P) (m_fields e) c of
             None \<Rightarrow> Inl (Undefined_Behaviour, e)
           | Some Psi \<Rightarrow>
               (let retval = for_upto (m_no_of_pts e)
                      (\<lambda>l r. r + (fst (Psi ! l) * fst (Psi ! l) + snd (Psi ! l) * snd (Psi ! l))) 0.0
                in Inr (m_ar e * retval, e)))"

subsection \<open>Snapshots\<close>

text \<open>
  \<^verbatim>\<open>Save_Phi\<close> (lines 600-612): the stream truncates the file; when it could not be opened
  the two writes do nothing. The payload is the first \<^verbatim>\<open>m_no_of_pts\<close> values of the field.
\<close>

definition Save_Phi :: "tparams \<Rightarrow> CRT_Base \<Rightarrow> string \<Rightarrow> int \<Rightarrow> failure \<times> CRT_Base + CRT_Base" where
  "Save_Phi P e filename c =
     (if c < 0 \<or> c > int (no_int_states P) then Inl (comp_error ''Save_Phi'', e)
      else case array_at (no_int_states P) (m_fields e) c of
             None \<Rightarrow> Inl (Undefined_Behaviour, e)
           | Some Psi \<Rightarrow>
               if fs_fail e filename then Inr e
               else Inr (e\<lparr> fs := (fs e)(filename \<mapsto> [(m_header e, take (m_no_of_pts e) Psi)]) \<rparr>))"

text \<open>\<^verbatim>\<open>Append_Phi\<close> (lines 619-635): the stream is opened with \<^verbatim>\<open>ofstream::app\<close>.\<close>

definition Append_Phi :: "tparams \<Rightarrow> CRT_Base \<Rightarrow> string \<Rightarrow> int \<Rightarrow> failure \<times> CRT_Base + CRT_Base" where
  "Append_Phi P e filename c =
     (if c < 0 \<or> c > int (no_int_states P) then Inl (comp_error ''Append_Phi'', e)
      else case array_at (no_int_states P) (m_fields e) c of
             None \<Rightarrow> Inl (Undefined_Behaviour, e)
           | Some Psi \<Rightarrow>
               if fs_fail e filename then
                 Inl (Exit_Failure,
                      e\<lparr> cout := cout e @ [''File '' @ filename @
                            '' could not be opened. Failbit: '' @ show_int (rdstate P) @ endl] \<rparr>)
               else
                 Inr (e\<lparr> fs := (fs e)(filename \<mapsto>
                        (case fs e filename of None \<Rightarrow> [] | Some old \<Rightarrow> old)
                          @ [(m_header e, take (m_no_of_pts e) Psi)]) \<rparr>))"

subsection \<open>The sequence scheduler\<close>

type_synonym StepFunction = "sequence_item \<Rightarrow> CRT_Base \<Rightarrow> CRT_Base"

text \<open>
  The four wrappers (lines 294-322) and the map \<^verbatim>\<open>m_map_stepfcts\<close> as the constructor
  fills it (lines 152-155). A step function is modelled as reading its sequence item
  only.
\<close>

definition Do_FT_Step_full_Wrapper :: "tparams \<Rightarrow> StepFunction" where
  "Do_FT_Step_full_Wrapper P seq self = Do_FT_Step_full P self"

definition Do_FT_Step_half_Wrapper :: "tparams \<Rightarrow> StepFunction" where
  "Do_FT_Step_half_Wrapper P seq self = Do_FT_Step_half P self"

definition Do_NL_Step_Wrapper :: "tparams \<Rightarrow> StepFunction" where
  "Do_NL_Step_Wrapper P seq self = Do_NL_Step P self"

definition Do_NL_Step_Wrapper_one :: "tparams \<Rightarrow> StepFunction" where
  "Do_NL_Step_Wrapper_one P seq self = self"

definition m_map_stepfcts :: "tparams \<Rightarrow> string \<Rightarrow> StepFunction option" where
  "m_map_stepfcts P =
     [''half_step'' \<mapsto> Do_FT_Step_half_Wrapper P,
      ''full_step'' \<mapsto> Do_FT_Step_full_Wrapper P,
      ''freeprop'' \<mapsto> Do_NL_Step_Wrapper P,
      ''freeprop_lin'' \<mapsto> Do_NL_Step_Wrapper_one P]"

text \<open>
  Modelled from the spec: \<^verbatim>\<open>Get_t\<close>, \<^verbatim>\<open>Get_dt\<close> and \<^verbatim>\<open>Set_dt\<close> are methods of the base
  class \<^verbatim>\<open>CRT_shared\<close>, declared outside this file; they read and write the header's
  time and time step (the scheduler updates the time-step magnitude per stage and
  rebuilds no table).
\<close>

definition Get_t :: "CRT_Base \<Rightarrow> real" where
  "Get_t e = header_t (m_header e)"

definition Get_dt :: "CRT_Base \<Rightarrow> real" where
  "Get_dt e = header_dt (m_header e)"

definition Set_dt :: "real \<Rightarrow> CRT_Base \<Rightarrow> CRT_Base" where
  "Set_dt v e = e\<lparr> m_header := (m_header e)\<lparr> header_dt := v \<rparr> \<rparr>"

text \<open>A loop over a list whose body can fail: the first failure ends it.\<close>

fun fold_fail :: "('a \<Rightarrow> 's \<Rightarrow> 'f + 's) \<Rightarrow> 'a list \<Rightarrow> 's \<Rightarrow> 'f + 's" where
  "fold_fail body [] s = Inr s"
| "fold_fail body (x # xs) s =
     (case body x s of Inl f \<Rightarrow> Inl f | Inr s' \<Rightarrow> fold_fail body xs s')"

text \<open>
  Lines 731-738. The quotient \<^verbatim>\<open>max_duration / seq.dt\<close> is a double, the exact quotient
  rounded. \<^verbatim>\<open>int(x)\<close> truncates a \<^verbatim>\<open>double\<close> towards zero and is undefined when
  the result is no \<^verbatim>\<open>int\<close> (32 bits); the quotient of two \<^verbatim>\<open>int\<close>s truncates towards
  zero and is undefined for a zero divisor and on overflow. A zero \<^verbatim>\<open>seq.dt\<close> makes the
  quotient of doubles infinite or NaN, which no \<^verbatim>\<open>int\<close> holds.
\<close>

definition stage_max_duration :: "sequence_item \<Rightarrow> real" where
  "stage_max_duration seq = fold (\<lambda>d max_duration. if d > max_duration then d else max_duration)
                              (seq_duration seq) 0"

definition in_int_range :: "int \<Rightarrow> bool" where
  "in_int_range z = (- (2 ^ 31) \<le> z \<and> z < 2 ^ 31)"

definition double_to_int :: "real \<Rightarrow> int option" where
  "double_to_int x =
     (let z = (if 0 \<le> x then \<lfloor>x\<rfloor> else \<lceil>x\<rceil>) in if in_int_range z then Some z else None)"

definition int_quot :: "int \<Rightarrow> int \<Rightarrow> int option" where
  "int_quot a b = (if b = 0 \<or> \<not> in_int_range (a sdiv b) then None else Some (a sdiv b))"

definition stage_subN :: "sequence_item \<Rightarrow> int option" where
  "stage_subN seq =
     (if seq_dt seq = 0 then None
      else double_to_int (fl_round (stage_max_duration seq / seq_dt seq)))"

definition stage_Na :: "sequence_item \<Rightarrow> int option" where
  "stage_Na seq =
     (case stage_subN seq of None \<Rightarrow> None | Some subN \<Rightarrow> int_quot subN (seq_Nk seq))"

text \<open>The file names of lines 766 and 796, and of lines 787 and 817.\<close>

definition Seq_filename :: "int \<Rightarrow> nat \<Rightarrow> string" where
  "Seq_filename seq_counter k =
     ''Seq_'' @ show_int seq_counter @ ''_'' @ show_int (int k + 1) @ ''.bin''"

definition time_filename :: "tparams \<Rightarrow> real \<Rightarrow> nat \<Rightarrow> string" where
  "time_filename P t k = fmt_3f P t @ ''_'' @ show_int (int k + 1) @ ''.bin''"

text \<open>
  Lines 731-768: the counts, the report, the time step, the stage's step function and
  the removal of the old packed files. The result is the step function, \<^verbatim>\<open>Nk\<close>,
  \<^verbatim>\<open>Na\<close> and the state. The product \<^verbatim>\<open>double(Na*Nk)*seq.dt\<close> of lines 746 and 748 is a
  double, the exact product rounded (the conversion of the \<^verbatim>\<open>int\<close> is exact).
\<close>

definition stage_report :: "tparams \<Rightarrow> int \<Rightarrow> sequence_item \<Rightarrow> int \<Rightarrow> int \<Rightarrow> string list" where
  "stage_report P seq_counter seq Na Nk =
     [''FYI: started new sequence '' @ seq_name seq @ endl,
      ''FYI: sequence no : '' @ show_int seq_counter @ endl,
      ''FYI: duration    : '' @ show_double P (stage_max_duration seq) @ endl,
      ''FYI: dt          : '' @ show_double P (seq_dt seq) @ endl,
      ''FYI: Na          : '' @ show_int Na @ endl,
      ''FYI: Nk          : '' @ show_int Nk @ endl,
      ''FYI: Na*Nk*dt    : '' @ show_double P (fl_round (real_of_int (Na * Nk) * seq_dt seq))
        @ endl]
     @ (if fl_round (real_of_int (Na * Nk) * seq_dt seq) \<noteq> stage_max_duration seq
        then [''FYI: double(Na*Nk)*seq.dt != max_duration'' @ endl] else [])"

definition remove_packed :: "tparams \<Rightarrow> int \<Rightarrow> CRT_Base \<Rightarrow> CRT_Base" where
  "remove_packed P seq_counter e =
     for_upto (no_int_states P) (\<lambda>k e. e\<lparr> fs := (fs e)(Seq_filename seq_counter k := None) \<rparr>) e"

definition stage_begin ::
  "tparams \<Rightarrow> int \<Rightarrow> sequence_item \<Rightarrow> CRT_Base
     \<Rightarrow> failure \<times> CRT_Base + StepFunction \<times> int \<times> int \<times> CRT_Base" where
  "stage_begin P seq_counter seq e =
     (case stage_Na seq of
        None \<Rightarrow> Inl (Undefined_Behaviour, e)
      | Some Na \<Rightarrow>
          (let Nk = seq_Nk seq;
               e1 = e\<lparr> cout := cout e @ stage_report P seq_counter seq Na Nk \<rparr>;
               e2 = (if Get_dt e1 \<noteq> seq_dt seq then Set_dt (seq_dt seq) e1 else e1)
           in case m_map_stepfcts P (seq_name seq) of
                None \<Rightarrow>
                  Inl (Exit_Failure,
                       e2\<lparr> cerr := cerr e2 @ [''Critical Error: Invalid squence name '' @ seq_name seq
                               @ endl @ ''('' @ oor_what P @ '')'' @ endl] \<rparr>)
              | Some step_fct \<Rightarrow> Inr (step_fct, Nk, Na, remove_packed P seq_counter e2)))"

text \<open>Lines 773-777: \<^verbatim>\<open>for ( int j=2; j<=Nk; j++ )\<close>.\<close>

function sub_steps :: "StepFunction \<Rightarrow> StepFunction \<Rightarrow> sequence_item \<Rightarrow> int \<Rightarrow> int \<Rightarrow> CRT_Base \<Rightarrow> CRT_Base" where
  "sub_steps step_fct full_step_fct seq Nk j e =
     (if j \<le> Nk then sub_steps step_fct full_step_fct seq Nk (j + 1) (full_step_fct seq (step_fct seq e))
      else e)"
  by pat_completeness auto
termination
  by (relation "measure (\<lambda>(step_fct, full_step_fct, seq, Nk, j, e). nat (Nk + 1 - j))") auto

declare sub_steps.simps [simp del]

text \<open>Lines 772-779: the steps of one outer iteration.\<close>

definition iteration_steps ::
  "StepFunction \<Rightarrow> StepFunction \<Rightarrow> StepFunction \<Rightarrow> sequence_item \<Rightarrow> int \<Rightarrow> CRT_Base \<Rightarrow> CRT_Base" where
  "iteration_steps half_step_fct step_fct full_step_fct seq Nk e =
     (let e1 = half_step_fct seq e;
          e2 = sub_steps step_fct full_step_fct seq Nk 2 e1;
          e3 = step_fct seq e2
      in half_step_fct seq e3)"

text \<open>The output loops (lines 785-789, 794-798 and 803-804).\<close>

definition save_all :: "tparams \<Rightarrow> CRT_Base \<Rightarrow> failure \<times> CRT_Base + CRT_Base" where
  "save_all P e =
     fold_fail (\<lambda>k e. Save_Phi P e (time_filename P (Get_t e) k) (int k)) [0..<no_int_states P] e"

definition append_all :: "tparams \<Rightarrow> int \<Rightarrow> CRT_Base \<Rightarrow> failure \<times> CRT_Base + CRT_Base" where
  "append_all P seq_counter e =
     fold_fail (\<lambda>k e. Append_Phi P e (Seq_filename seq_counter k) (int k)) [0..<no_int_states P] e"

definition print_pn :: "tparams \<Rightarrow> CRT_Base \<Rightarrow> failure \<times> CRT_Base + CRT_Base" where
  "print_pn P e =
     fold_fail
       (\<lambda>c e. case Get_Particle_Number P e (int c) of
                 Inl f \<Rightarrow> Inl f
               | Inr (N, e1) \<Rightarrow>
                   Inr (e1\<lparr> cout := cout e1 @
                          [''N['' @ show_int (int c) @ ''] = '' @ show_double P N @ endl] \<rparr>))
       [0..<no_int_states P] e"

text \<open>
  Lines 772-810: one outer iteration. \<open>custom\<close> is \<^verbatim>\<open>m_custom_fct\<close>, \<open>None\<close> for
  \<^verbatim>\<open>nullptr\<close>.
\<close>

definition outer_iteration ::
  "tparams \<Rightarrow> StepFunction option \<Rightarrow> StepFunction \<Rightarrow> StepFunction \<Rightarrow> StepFunction
     \<Rightarrow> int \<Rightarrow> sequence_item \<Rightarrow> int \<Rightarrow> CRT_Base \<Rightarrow> failure \<times> CRT_Base + CRT_Base" where
  "outer_iteration P custom half_step_fct step_fct full_step_fct seq_counter seq Nk e =
     (let e1 = iteration_steps half_step_fct step_fct full_step_fct seq Nk e;
          e2 = e1\<lparr> cout := cout e1 @ [''t = '' @ to_string P (header_t (m_header e1)) @ endl] \<rparr>
      in case (if seq_output_freq seq = freq_each then save_all P e2 else Inr e2) of
           Inl f \<Rightarrow> Inl f
         | Inr e3 \<Rightarrow>
       (case (if seq_output_freq seq = freq_packed then append_all P seq_counter e3 else Inr e3) of
           Inl f \<Rightarrow> Inl f
         | Inr e4 \<Rightarrow>
       (case (if seq_compute_pn_freq seq = freq_each then print_pn P e4 else Inr e4) of
           Inl f \<Rightarrow> Inl f
         | Inr e5 \<Rightarrow>
       (case custom of
           Some fct \<Rightarrow> if seq_custom_freq seq = freq_each then Inr (fct seq e5) else Inr e5
         | None \<Rightarrow> Inr e5))))"

text \<open>Lines 770-811: \<^verbatim>\<open>for ( int i=1; i<=Na; i++ )\<close>.\<close>

function propagate ::
  "tparams \<Rightarrow> StepFunction option \<Rightarrow> StepFunction \<Rightarrow> StepFunction \<Rightarrow> StepFunction
     \<Rightarrow> int \<Rightarrow> sequence_item \<Rightarrow> int \<Rightarrow> int \<Rightarrow> int \<Rightarrow> CRT_Base \<Rightarrow> failure \<times> CRT_Base + CRT_Base" where
  "propagate P custom half_step_fct step_fct full_step_fct seq_counter seq Nk Na i e =
     (if i \<le> Na then
        (case outer_iteration P custom half_step_fct step_fct full_step_fct seq_counter seq Nk e of
           Inl f \<Rightarrow> Inl f
         | Inr e' \<Rightarrow>
             propagate P custom half_step_fct step_fct full_step_fct seq_counter seq Nk Na (i + 1) e')
      else Inr e)"
  by pat_completeness auto
termination
  by (relation "measure (\<lambda>(P, custom, half_step_fct, step_fct, full_step_fct, seq_counter, seq,
                            Nk, Na, i, e). nat (Na + 1 - i))") auto

declare propagate.simps [simp del]

text \<open>Lines 813-831: the outputs after the last iteration.\<close>

definition stage_end ::
  "tparams \<Rightarrow> StepFunction option \<Rightarrow> sequence_item \<Rightarrow> CRT_Base \<Rightarrow> failure \<times> CRT_Base + CRT_Base" where
  "stage_end P custom seq e =
     (case (if seq_output_freq seq = freq_last then save_all P e else Inr e) of
        Inl f \<Rightarrow> Inl f
      | Inr e1 \<Rightarrow>
     (case (if seq_compute_pn_freq seq = freq_last then print_pn P e1 else Inr e1) of
        Inl f \<Rightarrow> Inl f
      | Inr e2 \<Rightarrow>
     (case custom of
        Some fct \<Rightarrow> if seq_custom_freq seq = freq_last then Inr (fct seq e2) else Inr e2
      | None \<Rightarrow> Inr e2)))"

text \<open>Lines 731-833: one stage that is neither custom nor a momentum kick.\<close>

definition run_stage ::
  "tparams \<Rightarrow> StepFunction option \<Rightarrow> StepFunction \<Rightarrow> StepFunction
     \<Rightarrow> int \<Rightarrow> sequence_item \<Rightarrow> CRT_Base \<Rightarrow> failure \<times> CRT_Base + CRT_Base" where
  "run_stage P custom half_step_fct full_step_fct seq_counter seq e =
     (case stage_begin P seq_counter seq e of
        Inl f \<Rightarrow> Inl f
      | Inr (step_fct, Nk, Na, e1) \<Rightarrow>
     (case propagate P custom half_step_fct step_fct full_step_fct seq_counter seq Nk Na 1 e1 of
        Inl f \<Rightarrow> Inl f
      | Inr e2 \<Rightarrow> stage_end P custom seq e2))"




section \<open>Notions used to state the properties\<close>

text \<open>An \<^verbatim>\<open>fftw_complex\<close> read as a complex number.\<close>

definition to_complex :: "fftw_complex \<Rightarrow> complex" where
  "to_complex z = Complex (fst z) (snd z)"

text \<open>
  The layout \<^verbatim>\<open>Allocate\<close> establishes: \<^verbatim>\<open>no_int_states\<close> fields of \<^verbatim>\<open>m_no_of_pts\<close> values
  each, and two tables of \<^verbatim>\<open>m_no_of_pts\<close> entries; and the layout of the potential:
  \<^verbatim>\<open>no_int_states\<close> vectors, of \<^verbatim>\<open>m_no_of_pts\<close> values each once \<^verbatim>\<open>Init_Potential\<close> has run.
\<close>

definition wf_fields :: "tparams \<Rightarrow> CRT_Base \<Rightarrow> bool" where
  "wf_fields P e =
     (length (m_fields e) = no_int_states P
      \<and> list_all (\<lambda>Psi. length Psi = m_no_of_pts e) (m_fields e))"

definition wf_potential :: "tparams \<Rightarrow> CRT_Base \<Rightarrow> bool" where
  "wf_potential P e =
     (length (m_Potential e) = no_int_states P
      \<and> (m_potenial_initialized e \<longrightarrow>
           list_all (\<lambda>V. length V = m_no_of_pts e) (m_Potential e)))"

definition wf_tables :: "CRT_Base \<Rightarrow> bool" where
  "wf_tables e =
     (length (m_half_step e) = m_no_of_pts e \<and> length (m_full_step e) = m_no_of_pts e)"

text \<open>The loop body that rewrites the cell \<open>l\<close> of an array from its old value.\<close>

definition update_at :: "(nat \<Rightarrow> 'a \<Rightarrow> 'a) \<Rightarrow> nat \<Rightarrow> 'a list \<Rightarrow> 'a list" where
  "update_at g l xs = xs[l := g l (xs ! l)]"

text \<open>The rotation \<^verbatim>\<open>Do_NL_Step\<close> applies to one field value.\<close>

definition NL_rot :: "real \<Rightarrow> fftw_complex \<Rightarrow> fftw_complex" where
  "NL_rot phi z = (fst z * cos phi - snd z * sin phi, snd z * cos phi + fst z * sin phi)"

text \<open>The density \<^verbatim>\<open>Psi[l][0]*Psi[l][0] + Psi[l][1]*Psi[l][1]\<close> of a field value.\<close>

definition density :: "fftw_complex \<Rightarrow> real" where
  "density z = fst z * fst z + snd z * snd z"

text \<open>The frames a file holds; a file that does not exist holds none.\<close>

definition frames_of :: "CRT_Base \<Rightarrow> string \<Rightarrow> frame list" where
  "frames_of e filename = (case fs e filename of None \<Rightarrow> [] | Some frames \<Rightarrow> frames)"

text \<open>
  A step function that leaves the files alone, and a custom function that does (as does
  the null pointer).
\<close>

definition keeps_files :: "StepFunction \<Rightarrow> bool" where
  "keeps_files fct = (\<forall>seq e. fs (fct seq e) = fs e \<and> fs_fail (fct seq e) = fs_fail e)"

definition hook_keeps_files :: "StepFunction option \<Rightarrow> bool" where
  "hook_keeps_files custom = (case custom of None \<Rightarrow> True | Some fct \<Rightarrow> keeps_files fct)"







section \<open>Example instances\<close>

text \<open>
  Concrete parameters, a state and a sequence item at which the theorems are
  evaluated: one internal state on a grid of two points in one dimension, with the
  two-point Fourier transform.
\<close>

fun dft2 :: "int \<Rightarrow> fftw_complex list \<Rightarrow> fftw_complex list" where
  "dft2 d [(a1, a2), (b1, b2)] =
     (if d = - 1 then [(a1 + b1, a2 + b2), (a1 - b1, a2 - b2)]
      else [((a1 + b1) / 2, (a2 + b2) / 2), ((a1 - b1) / 2, (a2 - b2) / 2)])"
| "dft2 d xs = xs"

definition ex_P :: tparams where
  "ex_P = \<lparr> dim = 1, no_int_states = 1, ft = dft2,
            Get_k = (\<lambda>l. [real l]), Get_x = (\<lambda>l. [real l]),
            show_double = (\<lambda>x. show_int \<lfloor>x\<rfloor>), to_string = (\<lambda>x. show_int \<lfloor>x\<rfloor>),
            fmt_3f = (\<lambda>x. show_int \<lfloor>x\<rfloor>), rdstate = 4, oor_what = ''map::at'',
            strtk_parse = (\<lambda>s. [s]), stod = (\<lambda>s. None) \<rparr>"

definition ex_e :: CRT_Base where
  "ex_e = \<lparr> m_header = \<lparr> nDims = 1, header_t = 0, header_dt = 1 \<rparr>,
            m_no_of_pts = 2, m_ar = 1, m_ar_k = 1, m_alpha = [1],
            m_full_step = [(1, 0), (1, 0)], m_half_step = [(1, 0), (1, 0)],
            m_potenial_initialized = False, m_gs = [0],
            m_fields = [[(1, 0), (0, 1)]], m_Potential = [[]],
            fs = (\<lambda>filename. None), fs_fail = (\<lambda>filename. False), cout = [], cerr = [] \<rparr>"

definition ex_seq :: sequence_item where
  "ex_seq = \<lparr> seq_name = ''freeprop'', seq_content = [], seq_comp = 0, seq_duration = [10],
              seq_dt = 1, seq_Nk = 2, seq_output_freq = freq_packed,
              seq_compute_pn_freq = freq_none, seq_custom_freq = freq_none \<rparr>"

text \<open>
  The double nearest to one tenth, and a stage of duration 1 with this time step and
  one sub-step.
\<close>

definition tenth :: real where
  "tenth = 3602879701896397 / 36028797018963968"

definition ex_seq_tenth :: sequence_item where
  "ex_seq_tenth = \<lparr> seq_name = ''freeprop'', seq_content = [], seq_comp = 0, seq_duration = [1],
                    seq_dt = tenth, seq_Nk = 1, seq_output_freq = freq_packed,
                    seq_compute_pn_freq = freq_none, seq_custom_freq = freq_none \<rparr>"



section \<open>Properties\<close>

subsection \<open>Counted loops\<close>

lemma for_upto_0: "for_upto 0 body s = s"
  by (simp add: for_upto_def)

lemma for_upto_Suc: "for_upto (Suc n) body s = body n (for_upto n body s)"
  by (simp add: for_upto_def)

text \<open>A loop that rewrites the cell \<open>l\<close> from its old value rewrites every cell once.\<close>

lemma for_upto_update_at_length:
  "length (for_upto n (update_at g) xs) = length xs"
  by (induction n) (simp_all add: for_upto_0 for_upto_Suc update_at_def)

lemma for_upto_update_at_nth:
  assumes "i < length xs"
  shows "for_upto n (update_at g) xs ! i = (if i < n then g i (xs ! i) else xs ! i)"
  using assms
proof (induction n)
  case 0
  then show ?case by (simp add: for_upto_0)
next
  case (Suc n)
  define ys where "ys = for_upto n (update_at g) xs"
  have len: "length ys = length xs"
    by (simp add: ys_def for_upto_update_at_length)
  have IH: "ys ! i = (if i < n then g i (xs ! i) else xs ! i)"
    using Suc by (simp add: ys_def)
  have "for_upto (Suc n) (update_at g) xs ! i = ys[n := g n (ys ! n)] ! i"
    by (simp add: for_upto_Suc ys_def update_at_def)
  also have "\<dots> = (if i < Suc n then g i (xs ! i) else xs ! i)"
  proof (cases "i = n")
    case True
    then show ?thesis using Suc.prems IH len by simp
  next
    case False
    then show ?thesis using IH by (simp add: less_Suc_eq)
  qed
  finally show ?case .
qed

subsection \<open>The guard on the component index\<close>

text \<open>
  C1 (the code departs from the claim). The claim: each of \<^verbatim>\<open>Setup_Momentum\<close>,
  \<^verbatim>\<open>Get_Particle_Number\<close>, \<^verbatim>\<open>Expval_Position\<close> and \<^verbatim>\<open>Expval_Momentum\<close> requires
  \<open>comp\<close> in \<open>[0, no_int_states)\<close> and fails with an out-of-range error, without touching
  a field, for \<open>comp = no_int_states\<close>. The guard of the code is
  \<^verbatim>\<open>comp<0 || comp>no_int_states\<close>: at \<open>comp = no_int_states\<close> it does not throw, and each
  of the four methods goes on to read \<^verbatim>\<open>m_fields[no_int_states]\<close>, one past the end of
  the array.
\<close>

theorem guard_admits_no_int_states:
  "Setup_Momentum P e px (int (no_int_states P)) = Inl (Undefined_Behaviour, e)
   \<and> Get_Particle_Number P e (int (no_int_states P)) = Inl (Undefined_Behaviour, e)
   \<and> Expval_Position P e (int (no_int_states P)) = Inl (Undefined_Behaviour, e)
   \<and> Expval_Momentum P e (int (no_int_states P)) = Inl (Undefined_Behaviour, e)"
  by (simp add: Setup_Momentum_def Get_Particle_Number_def Expval_Position_def
      Expval_Momentum_def array_at_def)

text \<open>Outside \<open>[0, no_int_states]\<close> the four methods throw and leave the state as it was.\<close>

lemma guard_throws:
  assumes "c < 0 \<or> int (no_int_states P) < c"
  shows "Setup_Momentum P e px c = Inl (comp_error ''Setup_Momentum'', e)"
    and "Get_Particle_Number P e c = Inl (comp_error ''Get_Particle_Number'', e)"
    and "Expval_Position P e c = Inl (comp_error ''Expval_Position'', e)"
    and "Expval_Momentum P e c = Inl (comp_error ''Expval_Momentum'', e)"
  using assms
  by (auto simp add: Setup_Momentum_def Get_Particle_Number_def Expval_Position_def
      Expval_Momentum_def)

subsection \<open>The operator tables\<close>

lemma CPoint_quadratic_form:
  assumes "length k = n" and "length a = n"
  shows "CPoint_dot (CPoint_scale k a) k = (\<Sum>j<n. k ! j * a ! j * k ! j)"
proof -
  have "CPoint_dot (CPoint_scale k a) k =
          (\<Sum>j = 0..<n. map (\<lambda>(x, y). x * y) (zip (map (\<lambda>(x, y). x * y) (zip k a)) k) ! j)"
    using assms by (simp add: CPoint_dot_def CPoint_scale_def sum_list_sum_nth)
  also have "\<dots> = (\<Sum>j = 0..<n. k ! j * a ! j * k ! j)"
    using assms by (intro sum.cong) simp_all
  finally show ?thesis
    by (simp add: atLeast0LessThan)
qed

lemma Init_loop:
  "for_upto n (Init_body P this) e =
     e\<lparr> m_half_step := for_upto n
          (update_at (\<lambda>i x.
             (cos (0.5 * (- header_dt (m_header this)
                     * CPoint_dot (CPoint_scale (Get_k P i) (m_alpha this)) (Get_k P i))),
              sin (0.5 * (- header_dt (m_header this)
                     * CPoint_dot (CPoint_scale (Get_k P i) (m_alpha this)) (Get_k P i))))))
          (m_half_step e),
        m_full_step := for_upto n
          (update_at (\<lambda>i x.
             (cos (- header_dt (m_header this)
                     * CPoint_dot (CPoint_scale (Get_k P i) (m_alpha this)) (Get_k P i)),
              sin (- header_dt (m_header this)
                     * CPoint_dot (CPoint_scale (Get_k P i) (m_alpha this)) (Get_k P i)))))
          (m_full_step e) \<rparr>"
  by (induction n) (simp_all add: for_upto_0 for_upto_Suc Init_body_def Let_def update_at_def)

lemma Init_tables:
  assumes "i < m_no_of_pts e"
    and "length (m_half_step e) = m_no_of_pts e" and "length (m_full_step e) = m_no_of_pts e"
  shows "m_half_step (Init P e) ! i =
           (cos (0.5 * (- header_dt (m_header e)
                   * CPoint_dot (CPoint_scale (Get_k P i) (m_alpha e)) (Get_k P i))),
            sin (0.5 * (- header_dt (m_header e)
                   * CPoint_dot (CPoint_scale (Get_k P i) (m_alpha e)) (Get_k P i))))"
    and "m_full_step (Init P e) ! i =
           (cos (- header_dt (m_header e)
                   * CPoint_dot (CPoint_scale (Get_k P i) (m_alpha e)) (Get_k P i)),
            sin (- header_dt (m_header e)
                   * CPoint_dot (CPoint_scale (Get_k P i) (m_alpha e)) (Get_k P i)))"
  using assms by (simp_all add: Init_def Init_loop for_upto_update_at_nth)

text \<open>
  C4. With tables of \<^verbatim>\<open>m_no_of_pts\<close> entries and vectors of \<^verbatim>\<open>dim\<close> components, \<^verbatim>\<open>Init\<close>
  leaves at every grid point \<open>i\<close>, for the phase \<open>phi = -dt * (k \<cdot> diag(alpha) \<cdot> k)\<close> of
  its momentum coordinate \<open>k\<close>, the pair \<open>(cos (phi/2), sin (phi/2))\<close> in the half-step
  table and \<open>(cos phi, sin phi)\<close> in the full-step table; in one dimension with
  \<open>alpha = [1]\<close> the half-step entry is \<open>(cos (-dt k\<^sup>2 / 2), sin (-dt k\<^sup>2 / 2))\<close>.
\<close>

theorem Init_operator_tables:
  assumes "wf_tables e" and "length (m_alpha e) = dim P" and "length (Get_k P i) = dim P"
    and "i < m_no_of_pts e"
  shows "(let phi = - header_dt (m_header e)
                      * (\<Sum>j<dim P. Get_k P i ! j * m_alpha e ! j * Get_k P i ! j)
          in m_half_step (Init P e) ! i = (cos (phi / 2), sin (phi / 2))
           \<and> m_full_step (Init P e) ! i = (cos phi, sin phi))
       \<and> (dim P = 1 \<and> m_alpha e = [1] \<longrightarrow>
            m_half_step (Init P e) ! i =
              (cos (- header_dt (m_header e) * (Get_k P i ! 0)\<^sup>2 / 2),
               sin (- header_dt (m_header e) * (Get_k P i ! 0)\<^sup>2 / 2)))"
proof -
  define phi where
    "phi = - header_dt (m_header e) * (\<Sum>j<dim P. Get_k P i ! j * m_alpha e ! j * Get_k P i ! j)"
  have len: "length (m_half_step e) = m_no_of_pts e" "length (m_full_step e) = m_no_of_pts e"
    using assms(1) by (simp_all add: wf_tables_def)
  have q: "CPoint_dot (CPoint_scale (Get_k P i) (m_alpha e)) (Get_k P i) =
             (\<Sum>j<dim P. Get_k P i ! j * m_alpha e ! j * Get_k P i ! j)"
    using assms(2,3) by (intro CPoint_quadratic_form) simp_all
  have h: "m_half_step (Init P e) ! i = (cos (phi / 2), sin (phi / 2))"
    using Init_tables(1) [OF assms(4) len, of P] by (simp add: q phi_def)
  have f: "m_full_step (Init P e) ! i = (cos phi, sin phi)"
    using Init_tables(2) [OF assms(4) len, of P] by (simp add: q phi_def)
  have one: "phi = - header_dt (m_header e) * (Get_k P i ! 0)\<^sup>2" if "dim P = 1" "m_alpha e = [1]"
    using that by (simp add: phi_def power2_eq_square)
  show ?thesis
    using h f one unfolding Let_def phi_def [symmetric] by simp
qed

theorem Init_operator_tables_witness:
  "m_half_step (Init ex_P ex_e) ! 1 = (cos (- 1 / 2), sin (- 1 / 2))
   \<and> m_full_step (Init ex_P ex_e) ! 1 = (cos (- 1), sin (- 1))"
  using Init_operator_tables [of ex_e ex_P 1]
  by (simp add: ex_P_def ex_e_def wf_tables_def Let_def)

subsection \<open>The potential before its initialization\<close>

text \<open>
  C6 (the code departs from the claim). The claim: \<^verbatim>\<open>Setup_Potential\<close> called before
  \<^verbatim>\<open>Init_Potential\<close> raises a typed failure that a caller may catch, and leaves the
  potential arrays and the flag unchanged. The code writes a message to \<^verbatim>\<open>cerr\<close> and
  executes \<^verbatim>\<open>throw;\<close> with no operand: called while no exception is being handled, this
  is \<^verbatim>\<open>std::terminate\<close>, which no caller catches.
\<close>

theorem Setup_Potential_uninitialized_terminates:
  "Setup_Potential P None (e\<lparr> m_potenial_initialized := False \<rparr>) c index val =
     Inl (Terminate,
          e\<lparr> m_potenial_initialized := False,
             cerr := cerr e @
               [''Potential not initialized. You forgot to invoke Init_Potential.'' @ endl] \<rparr>)"
  by (simp add: Setup_Potential_def)

subsection \<open>The kinetic steps\<close>

text \<open>
  C7. \<^verbatim>\<open>Do_FT_Step_full\<close> advances the header's time \<open>t\<close> by \<open>dt\<close> and
  \<^verbatim>\<open>Do_FT_Step_half\<close> advances it by \<open>dt/2\<close>; but for the fields and the header's time,
  the state they return is the state they were given: the operator tables, the
  potential arrays and its flag, the header's \<open>dt\<close> and everything else are unchanged.
\<close>

theorem Do_FT_Step_frame:
  "Do_FT_Step_full P e =
     e\<lparr> m_fields := m_fields (Do_FT_Step_full P e),
        m_header := (m_header e)\<lparr> header_t := header_t (m_header e) + header_dt (m_header e) \<rparr> \<rparr>
   \<and> Do_FT_Step_half P e =
     e\<lparr> m_fields := m_fields (Do_FT_Step_half P e),
        m_header := (m_header e)\<lparr> header_t := header_t (m_header e) + header_dt (m_header e) / 2 \<rparr> \<rparr>"
  by (simp add: Do_FT_Step_full_def Do_FT_Step_half_def Let_def)



subsection \<open>The nonlinear step\<close>


lemma NL_phi_potential_only:
  "NL_phi e dt Psi l i = (if m_potenial_initialized e then m_Potential e ! i ! l else 0) * dt"
  by (simp add: NL_phi_def Let_def)

lemma NL_phi_array:
  assumes "i < n"
  shows "for_upto n (\<lambda>i phi. phi[i := NL_phi e dt Psi l i]) (replicate n 0) ! i =
           (if m_potenial_initialized e then m_Potential e ! i ! l else 0) * dt"
proof -
  have "(\<lambda>i phi. phi[i := NL_phi e dt Psi l i]) = update_at (\<lambda>i x. NL_phi e dt Psi l i)"
    by (intro ext) (simp add: update_at_def)
  then show ?thesis
    using assms by (simp only: for_upto_update_at_nth length_replicate if_True NL_phi_potential_only)
qed

lemma NL_rotate_eq:
  "NL_rotate phi l = update_at (\<lambda>i row. row[l := NL_rot (phi ! i) (row ! l)])"
  by (intro ext) (simp add: NL_rotate_def NL_rot_def Let_def update_at_def)

lemma NL_point_length:
  "length (NL_point P e dt l Psi) = length Psi"
  by (simp add: NL_point_def Let_def NL_rotate_eq for_upto_update_at_length)

lemma NL_point_row:
  assumes "i < no_int_states P" and "length Psi = no_int_states P"
  shows "NL_point P e dt l Psi ! i =
           (Psi ! i)[l := NL_rot ((if m_potenial_initialized e then m_Potential e ! i ! l else 0) * dt)
                                 (Psi ! i ! l)]"
  using assms
  by (simp only: NL_point_def Let_def NL_rotate_eq for_upto_update_at_nth NL_phi_array if_True)

lemma NL_loop:
  assumes "length Psi = no_int_states P" and "i < no_int_states P"
  shows "length (for_upto m (NL_point P e dt) Psi) = no_int_states P
       \<and> length (for_upto m (NL_point P e dt) Psi ! i) = length (Psi ! i)
       \<and> (\<forall>l < length (Psi ! i). for_upto m (NL_point P e dt) Psi ! i ! l =
            (if l < m
             then NL_rot ((if m_potenial_initialized e then m_Potential e ! i ! l else 0) * dt)
                         (Psi ! i ! l)
             else Psi ! i ! l))"
proof (induction m)
  case 0
  show ?case using assms by (simp add: for_upto_0)
next
  case (Suc m)
  then show ?case
    using assms(2)
    by (simp add: for_upto_Suc NL_point_length NL_point_row nth_list_update less_Suc_eq)
qed

text \<open>
  C5. On fields and a potential of the allocated layout, \<^verbatim>\<open>Do_NL_Step\<close> multiplies the value of every
  field \<open>i\<close> at every point \<open>l\<close> by the complex number \<open>(cos phi, sin phi)\<close>, where \<open>phi\<close> is
  \<open>-dt\<close> times the potential of \<open>i\<close> at \<open>l\<close>, or zero when the potential is not
  initialized. The phase \<^verbatim>\<open>phi[i]\<close> the code computes is this \<open>phi\<close> whatever the field
  values \<open>Psi\<close> are: the density is computed and adds nothing, in the branch for a
  density \<open>\<le> 0\<close> (which adds \<open>0.0\<close>) and in the other.
\<close>

theorem Do_NL_Step_rotation:
  assumes "wf_fields P e" and "wf_potential P e" and "i < no_int_states P" and "l < m_no_of_pts e"
  shows "(let phi = - header_dt (m_header e)
                    * (if m_potenial_initialized e then m_Potential e ! i ! l else 0)
          in to_complex (m_fields (Do_NL_Step P e) ! i ! l) =
               to_complex (m_fields e ! i ! l) * Complex (cos phi) (sin phi)
             \<and> (\<forall>Psi. NL_phi e (- header_dt (m_header e)) Psi l i = phi))"
proof -
  have len: "length (m_fields e) = no_int_states P" and row: "length (m_fields e ! i) = m_no_of_pts e"
    using assms(1,3) by (simp_all add: wf_fields_def list_all_length)
  have "m_fields (Do_NL_Step P e) ! i ! l =
          NL_rot ((if m_potenial_initialized e then m_Potential e ! i ! l else 0)
                    * (- header_dt (m_header e))) (m_fields e ! i ! l)"
    using NL_loop [OF len assms(3), of "m_no_of_pts e" e "- header_dt (m_header e)"] assms(4) row
    by (simp add: Do_NL_Step_def Let_def)
  then show ?thesis
    by (simp add: Let_def NL_rot_def to_complex_def NL_phi_potential_only complex_eq_iff
        mult.commute)
qed

theorem Do_NL_Step_rotation_witness:
  "to_complex (m_fields (Do_NL_Step ex_P
       (ex_e\<lparr> m_potenial_initialized := True, m_Potential := [[0, 2]] \<rparr>)) ! 0 ! 1) =
     Complex 0 1 * Complex (cos (- 2)) (sin (- 2))
   \<and> (\<forall>Psi. NL_phi (ex_e\<lparr> m_potenial_initialized := True, m_Potential := [[0, 2]] \<rparr>)
              (- 1) Psi 1 0 = - 2)"
  using Do_NL_Step_rotation
    [of ex_P "ex_e\<lparr> m_potenial_initialized := True, m_Potential := [[0, 2]] \<rparr>" 0 1]
  by (simp add: ex_P_def ex_e_def wf_fields_def wf_potential_def to_complex_def Let_def)

subsection \<open>The momentum expectation value\<close>

text \<open>The two loops of the reduction leave in \<^verbatim>\<open>res[i]\<close> the sum over the grid points.\<close>

lemma Expval_tmp_sum:
  "length (Expval_tmp d n coord Psi) = d
   \<and> (\<forall>i<d. Expval_tmp d n coord Psi ! i = (\<Sum>l<n. coord l ! i * density (Psi ! l)))"
  unfolding Expval_tmp_def
proof (induction n)
  case 0
  show ?case by (simp add: for_upto_0)
next
  case (Suc n)
  have inner: "(\<lambda>i tmp. tmp[i := tmp ! i + c i]) = update_at (\<lambda>i v. v + c i)" for c :: "nat \<Rightarrow> real"
    by (intro ext) (simp add: update_at_def)
  show ?case
    using Suc
    by (simp add: for_upto_Suc Let_def inner for_upto_update_at_length for_upto_update_at_nth
        density_def)
qed

lemma Expval_res_nth:
  assumes "i < d"
  shows "Expval_res d tmp ! i = tmp ! i"
proof -
  have "(\<lambda>i res. res[i := res ! i + tmp ! i]) = update_at (\<lambda>i v. v + tmp ! i)"
    by (intro ext) (simp add: update_at_def)
  then show ?thesis
    using assms by (simp add: Expval_res_def for_upto_update_at_nth)
qed

text \<open>
  C8. When the transform capability keeps its round-trip contract,
  \<open>inverse (forward x) = x\<close>, \<^verbatim>\<open>Expval_Momentum\<close> on a valid component index \<open>c\<close> returns
  normally; what it returns is accumulated over the forward transform of the field
  \<open>c\<close> (for every axis \<open>i\<close>, \<^verbatim>\<open>m_ar_k\<close> times the sum over the grid points of the
  momentum coordinate times the density there), and the state on return is the state
  before the call: the field \<open>c\<close> has its position-space values again and no other
  field is touched.
\<close>

theorem Expval_Momentum_restores:
  assumes "\<forall>x. ft P 1 (ft P (- 1) x) = x" and "wf_fields P e"
    and "0 \<le> c" and "c < int (no_int_states P)"
  shows "Expval_Momentum P e c =
           Inr (map (\<lambda>i. m_ar_k e *
                       (\<Sum>l<m_no_of_pts e. Get_k P l ! i
                                              * density (ft P (- 1) (m_fields e ! nat c) ! l)))
                    [0..<dim P],
                e)"
proof -
  have c: "nat c < length (m_fields e)"
    using assms(2-4) by (simp add: wf_fields_def)
  have restored: "(m_fields e)[nat c := ft P 1 (ft P (- 1) (m_fields e ! nat c))] = m_fields e"
    using assms(1) by simp
  have res: "Expval_res (dim P) (Expval_tmp (dim P) n coord Psi) ! i =
               (\<Sum>l<n. coord l ! i * density (Psi ! l))" if "i < dim P" for i n coord Psi
    using that Expval_tmp_sum [of "dim P" n coord Psi] by (simp add: Expval_res_nth)
  show ?thesis
    using assms(3,4) c restored
    by (simp add: Expval_Momentum_def array_at_def Let_def res)
qed

lemma dft2_round_trip: "dft2 1 (dft2 (- 1) x) = x"
  by (induction "- 1 :: int" x rule: dft2.induct) simp_all

theorem Expval_Momentum_restores_witness:
  "Expval_Momentum ex_P ex_e 0 = Inr ([2], ex_e)"
proof -
  have "\<forall>x. ft ex_P 1 (ft ex_P (- 1) x) = x"
    by (simp add: ex_P_def dft2_round_trip)
  moreover have "wf_fields ex_P ex_e"
    by (simp add: wf_fields_def ex_P_def ex_e_def)
  moreover have "(0::int) \<le> 0" "0 < int (no_int_states ex_P)"
    by (simp_all add: ex_P_def)
  ultimately have "Expval_Momentum ex_P ex_e 0 =
      Inr (map (\<lambda>i. m_ar_k ex_e *
                  (\<Sum>l<m_no_of_pts ex_e. Get_k ex_P l ! i
                                           * density (ft ex_P (- 1) (m_fields ex_e ! nat 0) ! l)))
               [0..<dim ex_P],
           ex_e)"
    by (rule Expval_Momentum_restores)
  then show ?thesis
    by (simp add: ex_P_def ex_e_def density_def lessThan_Suc eval_nat_numeral)
qed

subsection \<open>The steps of one outer iteration\<close>

lemma sub_steps_funpow:
  "sub_steps v f seq Nk j e = ((\<lambda>e. f seq (v seq e)) ^^ nat (Nk + 1 - j)) e"
proof (induction v f seq Nk j e rule: sub_steps.induct)
  case (1 v f seq Nk j e)
  show ?case
  proof (cases "j \<le> Nk")
    case True
    then have n: "nat (Nk + 1 - j) = Suc (nat (Nk + 1 - (j + 1)))"
      by simp
    show ?thesis
      using True "1.IH" [OF True]
      by (subst sub_steps.simps) (simp only: n funpow_Suc_right o_apply if_True)
  next
    case False
    then show ?thesis
      by (subst sub_steps.simps) simp
  qed
qed










subsection \<open>Rounding to a double\<close>

text \<open>
  The exponent found brackets the number, and no other integer does; the rounding of a
  number is then fixed by its exponent and the nearest multiple of its unit.
\<close>

lemma ilog2_nonneg: "0 \<le> ilog2 n"
  by (induction n rule: ilog2.induct) (subst ilog2.simps, simp)

lemma ilog2_bounds:
  "1 \<le> n \<Longrightarrow> 2 ^ nat (ilog2 n) \<le> n \<and> n < 2 * 2 ^ nat (ilog2 n)"
proof (induction n rule: ilog2.induct)
  case (1 n)
  show ?case
  proof (cases "n < 2")
    case True
    then show ?thesis
      using "1.prems" by (subst ilog2.simps, subst (2) ilog2.simps) simp
  next
    case False
    then have m: "1 \<le> n div 2"
      by simp
    have k: "nat (ilog2 n) = Suc (nat (ilog2 (n div 2)))"
      using False ilog2_nonneg [of "n div 2"] by (subst ilog2.simps) simp
    define p :: int where "p = 2 ^ nat (ilog2 (n div 2))"
    have "p \<le> n div 2" "n div 2 < 2 * p"
      using "1.IH" [OF False m] by (simp_all add: p_def)
    then have "2 * p \<le> n \<and> n < 2 * (2 * p)"
      by presburger
    then show ?thesis
      unfolding k p_def by simp
  qed
qed

lemma fl_exponent_bounds:
  assumes "x \<noteq> 0"
  shows "2 powi fl_exponent x \<le> \<bar>x\<bar> \<and> \<bar>x\<bar> < 2 powi (fl_exponent x + 1)"
proof (cases "1 \<le> \<bar>x\<bar>")
  case True
  define n where "n = \<lfloor>\<bar>x\<bar>\<rfloor>"
  define k where "k = nat (ilog2 n)"
  have n: "1 \<le> n"
    using True by (simp add: n_def)
  have e: "fl_exponent x = int k"
    using True ilog2_nonneg [of n] by (simp add: fl_exponent_def n_def k_def)
  have b: "2 ^ k \<le> n" "n < 2 * 2 ^ k"
    using ilog2_bounds [OF n] by (simp_all add: k_def)
  have "(2::real) ^ k \<le> real_of_int n"
    using b(1) of_int_le_iff [where ?'a = real, of "2 ^ k" n] by simp
  moreover have "real_of_int n \<le> \<bar>x\<bar>"
    by (simp add: n_def)
  moreover have "n + 1 \<le> 2 * 2 ^ k"
    using b(2) by simp
  then have "real_of_int n + 1 \<le> 2 * 2 ^ k"
    using of_int_le_iff [where ?'a = real, of "n + 1" "2 * 2 ^ k"] by simp
  moreover have "\<bar>x\<bar> < real_of_int n + 1"
    by (simp add: n_def)
  ultimately have "(2::real) ^ k \<le> \<bar>x\<bar> \<and> \<bar>x\<bar> < 2 * 2 ^ k"
    by linarith
  then show ?thesis
    unfolding e by (simp add: power_int_add)
next
  case False
  define y where "y = 1 / \<bar>x\<bar>"
  define n where "n = \<lceil>y\<rceil> - 1"
  define k where "k = nat (ilog2 n)"
  have x: "0 < \<bar>x\<bar>" "\<bar>x\<bar> < 1"
    using assms False by simp_all
  have y: "1 < y"
    using x by (simp add: y_def)
  have n: "1 \<le> n"
    using y by (simp add: n_def less_ceiling_iff)
  have ny: "real_of_int n < y" "y \<le> real_of_int (n + 1)"
    by (simp_all add: n_def) linarith+
  have e: "fl_exponent x = - int k - 1"
    using False ilog2_nonneg [of n] by (simp add: fl_exponent_def n_def k_def y_def)
  have b: "2 ^ k \<le> n" "n < 2 * 2 ^ k"
    using ilog2_bounds [OF n] by (simp_all add: k_def)
  have "(2::real) ^ k \<le> real_of_int n"
    using b(1) of_int_le_iff [where ?'a = real, of "2 ^ k" n] by simp
  then have lo: "2 ^ k < y"
    using ny(1) by linarith
  have "n + 1 \<le> 2 * 2 ^ k"
    using b(2) by simp
  then have "real_of_int (n + 1) \<le> 2 * 2 ^ k"
    using of_int_le_iff [where ?'a = real, of "n + 1" "2 * 2 ^ k"] by simp
  then have hi: "y \<le> 2 ^ Suc k"
    using ny(2) by simp
  have xy: "\<bar>x\<bar> = 1 / y"
    using x by (simp add: y_def)
  have "1 / 2 ^ Suc k \<le> 1 / y"
    using hi y by (intro divide_left_mono) simp_all
  moreover have "1 / y < 1 / 2 ^ k"
    using lo y by (intro divide_strict_left_mono) simp_all
  moreover have "(2::real) powi (- int k - 1) = 1 / 2 ^ Suc k"
    by (simp add: power_int_diff power_int_minus field_simps)
  moreover have "(2::real) powi (- int k - 1 + 1) = 1 / 2 ^ k"
    by (simp add: power_int_minus field_simps)
  ultimately show ?thesis
    unfolding e xy by simp
qed

lemma round_half_even_of_int: "round_half_even (of_int n) = n"
  by (simp add: round_half_even_def)

lemma round_half_even_nonneg: "0 \<le> y \<Longrightarrow> 0 \<le> round_half_even y"
  by (simp add: round_half_even_def Let_def)

lemma round_half_even_near:
  assumes "\<bar>y - of_int m\<bar> < 1 / 2"
  shows "round_half_even y = m"
proof -
  have y: "real_of_int m - 1 / 2 < y" "y < real_of_int m + 1 / 2"
    using assms by linarith+
  have "\<lfloor>y\<rfloor> = m \<or> \<lfloor>y\<rfloor> = m - 1"
  proof (cases "real_of_int m \<le> y")
    case True
    then have "\<lfloor>y\<rfloor> = m"
      using y(2) by (intro floor_unique) simp_all
    then show ?thesis ..
  next
    case False
    then have "\<lfloor>y\<rfloor> = m - 1"
      using y(1) by (intro floor_unique) simp_all
    then show ?thesis ..
  qed
  then show ?thesis
  proof
    assume f: "\<lfloor>y\<rfloor> = m"
    have "y - of_int m < 1 / 2"
      using y(2) by linarith
    then show ?thesis
      by (simp add: round_half_even_def f)
  next
    assume f: "\<lfloor>y\<rfloor> = m - 1"
    have "1 / 2 < y - of_int (m - 1)"
      using y(1) by simp
    then show ?thesis
      by (simp add: round_half_even_def f)
  qed
qed

lemma fl_round_nonneg: "0 \<le> x \<Longrightarrow> 0 \<le> fl_round x"
  by (simp add: fl_round_def Let_def round_half_even_nonneg)

lemma two_powi_less:
  assumes "(2::real) powi a < 2 powi b"
  shows "a < b"
proof (rule ccontr)
  assume "\<not> a < b"
  then have "(2::real) powi b \<le> 2 powi a"
    by (intro power_int_increasing) simp_all
  then show False
    using assms by simp
qed

lemma fl_exponent_unique:
  assumes "2 powi e \<le> \<bar>x\<bar>" and "\<bar>x\<bar> < 2 powi (e + 1)"
  shows "fl_exponent x = e"
proof -
  have "0 < (2::real) powi e"
    by (rule zero_less_power_int) simp
  then have "0 < \<bar>x\<bar>"
    using assms(1) by linarith
  then have x: "x \<noteq> 0"
    by simp
  define d where "d = fl_exponent x"
  have b: "2 powi d \<le> \<bar>x\<bar>" "\<bar>x\<bar> < 2 powi (d + 1)"
    using fl_exponent_bounds [OF x] by (simp_all add: d_def)
  have "(2::real) powi d < 2 powi (e + 1)"
    using b(1) assms(2) by simp
  then have 1: "d < e + 1"
    by (rule two_powi_less)
  have "(2::real) powi e < 2 powi (d + 1)"
    using b(2) assms(1) by simp
  then have 2: "e < d + 1"
    by (rule two_powi_less)
  show ?thesis
    using 1 2 by (simp add: d_def)
qed

lemma fl_round_eq:
  assumes "2 powi e \<le> \<bar>x\<bar>" and "\<bar>x\<bar> < 2 powi (e + 1)" and "- 1022 \<le> e"
    and "\<bar>x / 2 powi (e - 52) - of_int m\<bar> < 1 / 2"
  shows "fl_round x = of_int m * 2 powi (e - 52)"
proof -
  have "0 < (2::real) powi e"
    by (rule zero_less_power_int) simp
  then have "0 < \<bar>x\<bar>"
    using assms(1) by linarith
  then have x: "x \<noteq> 0"
    by simp
  show ?thesis
    using x assms(3) round_half_even_near [OF assms(4)]
    by (simp add: fl_round_def fl_exponent_unique [OF assms(1,2)] Let_def max_def)
qed

lemma fl_round_of_int:
  assumes "\<bar>n\<bar> < 2 ^ 53"
  shows "fl_round (of_int n) = of_int n"
proof (cases "n = 0")
  case True
  then show ?thesis by (simp add: fl_round_def)
next
  case False
  define e where "e = fl_exponent (of_int n)"
  have x: "real_of_int n \<noteq> 0"
    using False by simp
  have b: "2 powi e \<le> \<bar>real_of_int n\<bar>" "\<bar>real_of_int n\<bar> < 2 powi (e + 1)"
    using fl_exponent_bounds [OF x] by (simp_all add: e_def)
  have "real_of_int \<bar>n\<bar> < real_of_int (2 ^ 53)"
    using assms by (simp only: of_int_less_iff)
  then have "(2::real) powi e < 2 powi 53"
    using b(1) by simp
  then have e53: "e < 53"
    by (rule two_powi_less)
  have "1 \<le> \<bar>real_of_int n\<bar>"
    using False by (simp flip: of_int_abs)
  then have "(2::real) powi 0 < 2 powi (e + 1)"
    using b(2) by simp
  then have "0 < e + 1"
    by (rule two_powi_less)
  then have e0: "0 \<le> e"
    by simp
  define k where "k = nat (52 - e)"
  have ulp: "(2::real) powi (max e (- 1022) - 52) = 1 / 2 ^ k"
    using e0 e53 by (simp add: k_def max_def power_int_def power_one_over)
  have "real_of_int n / (1 / 2 ^ k) = real_of_int (n * 2 ^ k)"
    by simp
  then have "round_half_even (real_of_int n / (1 / 2 ^ k)) = n * 2 ^ k"
    by (simp only: round_half_even_of_int)
  then show ?thesis
    using x by (simp add: fl_round_def e_def [symmetric] ulp Let_def)
qed


text \<open>
  One tenth is no double; the double nearest to it makes the rounded quotient
  \<open>1 / dt\<close> exactly 10 and the rounded product \<open>10 * dt\<close> exactly 1.
\<close>

lemma fl_round_tenth: "fl_round (1 / 10) = tenth"
  using fl_round_eq [where x = "1 / 10" and e = "- 4" and m = 7205759403792794]
  by (simp add: tenth_def power_int_minus)

lemma is_double_tenth: "is_double tenth"
  using fl_round_eq [where x = tenth and e = "- 4" and m = 7205759403792794]
  by (simp add: is_double_def tenth_def power_int_minus)

lemma fl_round_one_by_tenth: "fl_round (1 / tenth) = 10"
  using fl_round_eq [where x = "1 / tenth" and e = 3 and m = 5629499534213120]
  by (simp add: tenth_def power_int_minus)

lemma fl_round_ten_tenths: "fl_round (10 * tenth) = 1"
  using fl_round_eq [where x = "10 * tenth" and e = 0 and m = 4503599627370496]
  by (simp add: tenth_def power_int_minus)


subsection \<open>The number of outer iterations\<close>

lemma stage_max_duration_Max:
  "stage_max_duration seq = Max (insert 0 (set (seq_duration seq)))"
proof -
  have "(\<lambda>d max_duration::real. if d > max_duration then d else max_duration) = max"
    by (intro ext) (simp add: max_def)
  then have "stage_max_duration seq = fold max (seq_duration seq) 0"
    by (simp add: stage_max_duration_def)
  also have "\<dots> = Max (set (0 # seq_duration seq))"
    by (simp only: Max.set_eq_fold)
  finally show ?thesis by simp
qed

lemma stage_max_duration_nonneg: "0 \<le> stage_max_duration seq"
  by (simp add: stage_max_duration_Max)

lemma int_quot_nonneg:
  assumes "0 \<le> a" and "a < 2 ^ 31" and "1 \<le> b"
  shows "int_quot a b = Some (a div b)"
proof -
  have sd: "a sdiv b = a div b"
    using assms(1,3) by (cases "a = 0") (simp_all add: signed_divide_int_def sgn_if)
  have "0 \<le> a div b"
    using assms(1,3) by (simp add: pos_imp_zdiv_nonneg_iff)
  moreover have "a div b \<le> a"
    using assms(1) int_div_le_self [of a b] by (cases "a = 0") simp_all
  ultimately have "in_int_range (a div b)"
    using assms(2) by (simp add: in_int_range_def)
  then show ?thesis
    using assms(3) by (simp add: int_quot_def sd)
qed

lemma stage_Na_quotient:
  assumes "0 < seq_dt seq" and "1 \<le> seq_Nk seq"
    and "fl_round (stage_max_duration seq / seq_dt seq) < 2 ^ 31"
  shows "stage_Na seq = Some (\<lfloor>fl_round (stage_max_duration seq / seq_dt seq)\<rfloor> div seq_Nk seq)"
proof -
  define q where "q = fl_round (stage_max_duration seq / seq_dt seq)"
  define a where "a = \<lfloor>q\<rfloor>"
  have "0 \<le> stage_max_duration seq / seq_dt seq"
    using assms(1) stage_max_duration_nonneg [of seq] by simp
  then have q0: "0 \<le> q"
    unfolding q_def by (rule fl_round_nonneg)
  have fl: "0 \<le> a" "a < 2 ^ 31"
    using q0 assms(3) by (simp_all add: a_def q_def floor_less_iff)
  have subN: "stage_subN seq = Some a"
    using assms(1) q0 fl
    by (simp add: stage_subN_def double_to_int_def in_int_range_def q_def [symmetric] a_def)
  show ?thesis
    using int_quot_nonneg [OF fl assms(2)] by (simp add: stage_Na_def subN) (simp add: a_def q_def)
qed

lemma stage_Na_ex_seq: "stage_Na ex_seq = Some 5"
proof -
  have "fl_round (real_of_int 10) = real_of_int 10"
    by (rule fl_round_of_int) simp
  then have r: "fl_round 10 = 10"
    by simp
  have d: "stage_max_duration ex_seq / seq_dt ex_seq = 10"
    by (simp add: ex_seq_def stage_max_duration_def)
  have "stage_Na ex_seq = Some (\<lfloor>fl_round (stage_max_duration ex_seq / seq_dt ex_seq)\<rfloor>
                                  div seq_Nk ex_seq)"
    by (rule stage_Na_quotient) (simp_all add: d r, simp_all add: ex_seq_def)
  then show ?thesis
    by (simp add: d r) (simp add: ex_seq_def)
qed

subsection \<open>The set-up of a stage\<close>

lemma remove_loop_fs:
  "fs (for_upto n (\<lambda>k e. e\<lparr> fs := (fs e)(Seq_filename c k := None) \<rparr>) e) f =
     (if \<exists>k<n. f = Seq_filename c k then None else fs e f)"
  by (induction n) (auto simp add: for_upto_0 for_upto_Suc less_Suc_eq)

lemma remove_loop_frame:
  "cout (for_upto n (\<lambda>k e. e\<lparr> fs := (fs e)(Seq_filename c k := None) \<rparr>) e) = cout e"
  "cerr (for_upto n (\<lambda>k e. e\<lparr> fs := (fs e)(Seq_filename c k := None) \<rparr>) e) = cerr e"
  "fs_fail (for_upto n (\<lambda>k e. e\<lparr> fs := (fs e)(Seq_filename c k := None) \<rparr>) e) = fs_fail e"
  by (induction n) (simp_all add: for_upto_0 for_upto_Suc)

lemma remove_packed_fs:
  "fs (remove_packed P c e) f =
     (if \<exists>k<no_int_states P. f = Seq_filename c k then None else fs e f)"
  by (simp only: remove_packed_def remove_loop_fs)

lemma remove_packed_frame:
  "cout (remove_packed P c e) = cout e"
  "cerr (remove_packed P c e) = cerr e"
  "fs_fail (remove_packed P c e) = fs_fail e"
  by (simp_all only: remove_packed_def remove_loop_frame)

lemma mismatch_line_in_report:
  "(''FYI: double(Na*Nk)*seq.dt != max_duration'' @ endl \<in> set (stage_report P c seq Na Nk))
     = (fl_round (real_of_int (Na * Nk) * seq_dt seq) \<noteq> stage_max_duration seq)"
  by (simp add: stage_report_def)

lemma stage_begin_ok:
  assumes "stage_Na seq = Some Na" and "m_map_stepfcts P (seq_name seq) = Some step_fct"
  shows "stage_begin P c seq e =
           Inr (step_fct, seq_Nk seq, Na,
                remove_packed P c
                  (if Get_dt e \<noteq> seq_dt seq
                   then Set_dt (seq_dt seq)
                          (e\<lparr> cout := cout e @ stage_report P c seq Na (seq_Nk seq) \<rparr>)
                   else e\<lparr> cout := cout e @ stage_report P c seq Na (seq_Nk seq) \<rparr>))"
  using assms by (simp add: stage_begin_def Let_def Get_dt_def Set_dt_def)

text \<open>
  C2 (corrected). The claim: the number of outer iterations is
  \<open>Na = floor (max (duration per component) / dt)\<close>, and a \<open>dt\<close> that does not divide
  the duration is only logged. The code divides once more, by the sub-step count:
  \<^verbatim>\<open>subN = int(max_duration / seq.dt)\<close> and \<^verbatim>\<open>Na = subN / seq.Nk\<close>, where
  \<^verbatim>\<open>max_duration\<close> starts at zero. For durations \<open>[10]\<close>, \<open>dt = 1\<close> and \<open>Nk = 2\<close> the code
  runs 5 outer iterations, not 10.
\<close>

theorem stage_iteration_count_counterexample:
  "stage_Na ex_seq \<noteq> Some \<lfloor>Max (set (seq_duration ex_seq)) / seq_dt ex_seq\<rfloor>"
  by (simp add: stage_Na_ex_seq) (simp add: ex_seq_def)

text \<open>
  C2 as amended. For \<open>dt > 0\<close>, \<open>Nk \<ge> 1\<close>, a quotient that an \<^verbatim>\<open>int\<close> holds and a stage
  name the map knows, the scheduler computes \<open>Na = floor (fl (D / dt)) div Nk\<close>, with
  \<open>D\<close> the largest of zero and the durations and \<open>fl\<close> the rounding to a double; the
  set-up of the stage does not fail, it adds its report to \<^verbatim>\<open>cout\<close> and nothing to
  \<^verbatim>\<open>cerr\<close>, and the report holds the line
  \<^verbatim>\<open>FYI: double(Na*Nk)*seq.dt != max_duration\<close> exactly when \<open>fl (Na * Nk * dt) \<noteq> D\<close>.
\<close>

theorem stage_iteration_count:
  assumes "0 < seq_dt seq" and "1 \<le> seq_Nk seq"
    and "fl_round (stage_max_duration seq / seq_dt seq) < 2 ^ 31"
    and "m_map_stepfcts P (seq_name seq) = Some step_fct"
  shows "(let D = Max (insert 0 (set (seq_duration seq)));
              Na = \<lfloor>fl_round (D / seq_dt seq)\<rfloor> div seq_Nk seq
          in stage_Na seq = Some Na
           \<and> (\<exists>e'. stage_begin P c seq e = Inr (step_fct, seq_Nk seq, Na, e')
                   \<and> cout e' = cout e @ stage_report P c seq Na (seq_Nk seq)
                   \<and> cerr e' = cerr e)
           \<and> ((''FYI: double(Na*Nk)*seq.dt != max_duration'' @ endl
                  \<in> set (stage_report P c seq Na (seq_Nk seq)))
                = (fl_round (real_of_int (Na * seq_Nk seq) * seq_dt seq) \<noteq> D)))"
proof -
  define Na where "Na = \<lfloor>fl_round (stage_max_duration seq / seq_dt seq)\<rfloor> div seq_Nk seq"
  have Na: "stage_Na seq = Some Na"
    using stage_Na_quotient [OF assms(1-3)] by (simp add: Na_def)
  have "\<exists>e'. stage_begin P c seq e = Inr (step_fct, seq_Nk seq, Na, e')
               \<and> cout e' = cout e @ stage_report P c seq Na (seq_Nk seq) \<and> cerr e' = cerr e"
    by (simp add: stage_begin_ok [OF Na assms(4)] remove_packed_frame Set_dt_def)
  then show ?thesis
    using Na mismatch_line_in_report [where Na = Na and Nk = "seq_Nk seq" and seq = seq and P = P and c = c]
    unfolding Let_def stage_max_duration_Max [symmetric] Na_def [symmetric] by simp
qed

text \<open>
  The stage of duration 1 whose time step is the double nearest to one tenth, with one
  sub-step: ten outer iterations, and no line about a mismatch.
\<close>

theorem stage_iteration_count_witness:
  "stage_Na ex_seq_tenth = Some 10
   \<and> (\<exists>e'. stage_begin ex_P 1 ex_seq_tenth ex_e = Inr (Do_NL_Step_Wrapper ex_P, 1, 10, e')
           \<and> cout e' = cout ex_e @ stage_report ex_P 1 ex_seq_tenth 10 1 \<and> cerr e' = cerr ex_e)
   \<and> ''FYI: double(Na*Nk)*seq.dt != max_duration'' @ endl
        \<notin> set (stage_report ex_P 1 ex_seq_tenth 10 1)"
proof -
  have dt: "seq_dt ex_seq_tenth = tenth" "0 < tenth" "seq_Nk ex_seq_tenth = 1"
    and D: "stage_max_duration ex_seq_tenth = 1" "Max (insert 0 (set (seq_duration ex_seq_tenth))) = 1"
    and name: "m_map_stepfcts ex_P (seq_name ex_seq_tenth) = Some (Do_NL_Step_Wrapper ex_P)"
    by (simp_all add: ex_seq_tenth_def tenth_def stage_max_duration_def m_map_stepfcts_def)
  show ?thesis
    using stage_iteration_count [of ex_seq_tenth ex_P "Do_NL_Step_Wrapper ex_P" 1 ex_e]
    by (simp add: dt D name fl_round_one_by_tenth fl_round_ten_tenths Let_def)
qed

subsection \<open>File names\<close>

lemma digit_char_inj:
  assumes "a < 10" and "b < 10" and "digit_char a = digit_char b"
  shows "a = b"
proof -
  have A: "(of_char (digit_char a) :: nat) = 48 + a"
    using assms(1) by (simp add: digit_char_def)
  have B: "(of_char (digit_char b) :: nat) = 48 + b"
    using assms(2) by (simp add: digit_char_def)
  have "(of_char (digit_char a) :: nat) = of_char (digit_char b)"
    using assms(3) by (rule arg_cong)
  then have "48 + a = 48 + b"
    unfolding A B .
  then show ?thesis by simp
qed

lemma show_nat_not_Nil: "show_nat n \<noteq> []" "[] \<noteq> show_nat n"
  by (subst show_nat.simps, simp)+

lemma show_nat_inj: "show_nat n = show_nat m \<Longrightarrow> n = m"
proof (induction n arbitrary: m rule: show_nat.induct)
  case (1 n)
  show ?case
  proof (cases "n < 10")
    case True
    show ?thesis
    proof (cases "m < 10")
      case True
      with \<open>n < 10\<close> "1.prems" show ?thesis
        by (simp add: show_nat.simps [of n] show_nat.simps [of m] digit_char_inj)
    next
      case False
      with \<open>n < 10\<close> "1.prems" show ?thesis
        by (simp add: show_nat.simps [of n] show_nat.simps [of m] show_nat_not_Nil)
    qed
  next
    case False
    show ?thesis
    proof (cases "m < 10")
      case True
      with \<open>\<not> n < 10\<close> "1.prems" show ?thesis
        by (simp add: show_nat.simps [of n] show_nat.simps [of m] show_nat_not_Nil)
    next
      case m: False
      from False m "1.prems"
      have eq: "show_nat (n div 10) = show_nat (m div 10)"
        and d: "digit_char (n mod 10) = digit_char (m mod 10)"
        by (simp_all add: show_nat.simps [of n] show_nat.simps [of m])
      have "n div 10 = m div 10"
        using "1.IH" [OF False eq] .
      moreover have "n mod 10 = m mod 10"
        using d by (intro digit_char_inj) simp_all
      ultimately show ?thesis
        by (metis div_mult_mod_eq)
    qed
  qed
qed

lemma Seq_filename_inj: "Seq_filename c k = Seq_filename c k' \<longleftrightarrow> k = k'"
proof
  assume "Seq_filename c k = Seq_filename c k'"
  then have "show_int (int k + 1) = show_int (int k' + 1)"
    by (simp add: Seq_filename_def)
  then have "show_nat (nat (int k + 1)) = show_nat (nat (int k' + 1))"
    by (simp add: show_int_def)
  then have "nat (int k + 1) = nat (int k' + 1)"
    by (rule show_nat_inj)
  then show "k = k'" by simp
qed simp


subsection \<open>Steps keep the files\<close>

lemma Do_steps_keep_files:
  "fs (Do_FT_Step_full P e) = fs e" "fs_fail (Do_FT_Step_full P e) = fs_fail e"
  "fs (Do_FT_Step_half P e) = fs e" "fs_fail (Do_FT_Step_half P e) = fs_fail e"
  "fs (Do_NL_Step P e) = fs e" "fs_fail (Do_NL_Step P e) = fs_fail e"
  by (simp_all add: Do_FT_Step_full_def Do_FT_Step_half_def Do_NL_Step_def Let_def)

lemma wrappers_keep_files:
  "keeps_files (Do_FT_Step_half_Wrapper P)" "keeps_files (Do_FT_Step_full_Wrapper P)"
  "keeps_files (Do_NL_Step_Wrapper P)" "keeps_files (Do_NL_Step_Wrapper_one P)"
  by (simp_all add: keeps_files_def Do_FT_Step_half_Wrapper_def Do_FT_Step_full_Wrapper_def
      Do_NL_Step_Wrapper_def Do_NL_Step_Wrapper_one_def Do_steps_keep_files)

lemma registered_keeps_files:
  assumes "m_map_stepfcts P name = Some step_fct"
  shows "keeps_files step_fct"
  using assms wrappers_keep_files [of P]
  by (auto simp add: m_map_stepfcts_def split: if_splits)

lemma funpow_keeps_files:
  assumes "keeps_files v" and "keeps_files f"
  shows "fs (((\<lambda>e. f seq (v seq e)) ^^ n) e) = fs e
       \<and> fs_fail (((\<lambda>e. f seq (v seq e)) ^^ n) e) = fs_fail e"
  using assms by (induction n) (simp_all add: keeps_files_def)

lemma iteration_steps_keeps_files:
  assumes "keeps_files h" and "keeps_files v" and "keeps_files f"
  shows "fs (iteration_steps h v f seq Nk e) = fs e"
    and "fs_fail (iteration_steps h v f seq Nk e) = fs_fail e"
  using assms funpow_keeps_files [OF assms(2,3)]
  by (simp_all add: iteration_steps_def sub_steps_funpow Let_def keeps_files_def)

subsection \<open>Loops that can fail\<close>

lemma fold_fail_append:
  "fold_fail body (xs @ ys) s =
     (case fold_fail body xs s of Inl f \<Rightarrow> Inl f | Inr s' \<Rightarrow> fold_fail body ys s')"
  by (induction xs arbitrary: s) (simp_all split: sum.splits)

lemma fold_fail_upt_Suc:
  "fold_fail body [0..<Suc m] s =
     (case fold_fail body [0..<m] s of Inl f \<Rightarrow> Inl f | Inr s' \<Rightarrow> body m s')"
  by (simp add: fold_fail_append split: sum.splits)

lemma Append_Phi_ok:
  assumes "m < no_int_states P" and "\<not> fs_fail e filename"
  shows "Append_Phi P e filename (int m) =
           Inr (e\<lparr> fs := (fs e)(filename \<mapsto>
                  frames_of e filename @ [(m_header e, take (m_no_of_pts e) (m_fields e ! m))]) \<rparr>)"
  using assms by (simp add: Append_Phi_def array_at_def frames_of_def)

lemma append_loop:
  assumes "m \<le> no_int_states P" and "\<forall>k<no_int_states P. \<not> fs_fail e (Seq_filename c k)"
  shows "\<exists>e'. fold_fail (\<lambda>k e. Append_Phi P e (Seq_filename c k) (int k)) [0..<m] e = Inr e'
              \<and> fs_fail e' = fs_fail e
              \<and> (\<forall>k. length (frames_of e' (Seq_filename c k)) =
                       (if k < m then Suc (length (frames_of e (Seq_filename c k)))
                        else length (frames_of e (Seq_filename c k))))"
  using assms(1)
proof (induction m)
  case 0
  show ?case by simp
next
  case (Suc m)
  then obtain e1 where
    e1: "fold_fail (\<lambda>k e. Append_Phi P e (Seq_filename c k) (int k)) [0..<m] e = Inr e1"
    and ff: "fs_fail e1 = fs_fail e"
    and len: "\<And>k. length (frames_of e1 (Seq_filename c k)) =
                (if k < m then Suc (length (frames_of e (Seq_filename c k)))
                 else length (frames_of e (Seq_filename c k)))"
    by auto
  have m: "m < no_int_states P"
    using Suc.prems by simp
  have ok: "\<not> fs_fail e1 (Seq_filename c m)"
    using assms(2) m ff by simp
  show ?case
    unfolding fold_fail_upt_Suc e1
    using len ff
    by (simp add: Append_Phi_ok [OF m ok] frames_of_def Seq_filename_inj less_Suc_eq)
qed

lemma append_all_ok:
  assumes "\<forall>k<no_int_states P. \<not> fs_fail e (Seq_filename c k)"
  shows "\<exists>e'. append_all P c e = Inr e' \<and> fs_fail e' = fs_fail e
              \<and> (\<forall>k<no_int_states P. length (frames_of e' (Seq_filename c k)) =
                       Suc (length (frames_of e (Seq_filename c k))))"
  using append_loop [OF le_refl assms] unfolding append_all_def by auto

lemma print_loop:
  assumes "m \<le> no_int_states P"
  shows "\<exists>e'. fold_fail
               (\<lambda>c e. case Get_Particle_Number P e (int c) of
                         Inl f \<Rightarrow> Inl f
                       | Inr (N, e1) \<Rightarrow>
                           Inr (e1\<lparr> cout := cout e1 @
                                  [''N['' @ show_int (int c) @ ''] = '' @ show_double P N @ endl] \<rparr>))
               [0..<m] e = Inr e'
              \<and> fs e' = fs e \<and> fs_fail e' = fs_fail e"
  using assms
proof (induction m)
  case 0
  show ?case by simp
next
  case (Suc m)
  then obtain e1 where
    e1: "fold_fail
           (\<lambda>c e. case Get_Particle_Number P e (int c) of
                     Inl f \<Rightarrow> Inl f
                   | Inr (N, e1) \<Rightarrow>
                       Inr (e1\<lparr> cout := cout e1 @
                              [''N['' @ show_int (int c) @ ''] = '' @ show_double P N @ endl] \<rparr>))
           [0..<m] e = Inr e1"
    and keep: "fs e1 = fs e" "fs_fail e1 = fs_fail e"
    by auto
  have m: "m < no_int_states P"
    using Suc.prems by simp
  show ?case
    unfolding fold_fail_upt_Suc e1
    using keep m by (simp add: Get_Particle_Number_def array_at_def Let_def)
qed

lemma print_pn_ok:
  "\<exists>e'. print_pn P e = Inr e' \<and> fs e' = fs e \<and> fs_fail e' = fs_fail e"
  using print_loop [OF le_refl] unfolding print_pn_def by auto


subsection \<open>One stage with packed output\<close>

lemma custom_call_ok:
  assumes "hook_keeps_files custom"
  shows "\<exists>e'. (case custom of
                 Some fct \<Rightarrow> if b then Inr (fct seq e) else Inr e
               | None \<Rightarrow> Inr e) = (Inr e' :: failure \<times> CRT_Base + CRT_Base)
              \<and> fs e' = fs e \<and> fs_fail e' = fs_fail e"
  using assms
  by (cases custom; cases b) (simp_all add: hook_keeps_files_def keeps_files_def)

lemma outer_iteration_packed:
  assumes "seq_output_freq seq = freq_packed"
    and "hook_keeps_files custom"
    and "keeps_files h" and "keeps_files v" and "keeps_files f"
    and "\<forall>k<no_int_states P. \<not> fs_fail e (Seq_filename c k)"
  shows "\<exists>e'. outer_iteration P custom h v f c seq Nk e = Inr e' \<and> fs_fail e' = fs_fail e
              \<and> (\<forall>k<no_int_states P. length (frames_of e' (Seq_filename c k)) =
                       Suc (length (frames_of e (Seq_filename c k))))"
proof -
  define e2 where
    "e2 = (iteration_steps h v f seq Nk e)
            \<lparr> cout := cout (iteration_steps h v f seq Nk e) @
                 [''t = '' @ to_string P (header_t (m_header (iteration_steps h v f seq Nk e))) @ endl] \<rparr>"
  have e2: "fs e2 = fs e" "fs_fail e2 = fs_fail e"
    by (simp_all add: e2_def iteration_steps_keeps_files [OF assms(3-5)])
  have fr2: "frames_of e2 = frames_of e"
    by (intro ext) (simp add: frames_of_def e2)
  have "\<forall>k<no_int_states P. \<not> fs_fail e2 (Seq_filename c k)"
    using assms(6) e2 by simp
  from append_all_ok [OF this] obtain e4 where
    e4: "append_all P c e2 = Inr e4" "fs_fail e4 = fs_fail e"
    and len4: "\<forall>k<no_int_states P. length (frames_of e4 (Seq_filename c k)) =
                 Suc (length (frames_of e (Seq_filename c k)))"
    using e2 fr2 by auto
  obtain e5 where
    e5: "(if seq_compute_pn_freq seq = freq_each then print_pn P e4 else Inr e4) = Inr e5"
    and keep5: "fs e5 = fs e4" "fs_fail e5 = fs_fail e4"
    using print_pn_ok [of P e4] by (cases "seq_compute_pn_freq seq = freq_each") auto
  obtain e6 where
    e6: "(case custom of
            Some fct \<Rightarrow> if seq_custom_freq seq = freq_each then Inr (fct seq e5) else Inr e5
          | None \<Rightarrow> Inr e5) = (Inr e6 :: failure \<times> CRT_Base + CRT_Base)"
    and keep6: "fs e6 = fs e5" "fs_fail e6 = fs_fail e5"
    using custom_call_ok [OF assms(2), where b = "seq_custom_freq seq = freq_each" and seq = seq and e = e5] by auto
  have fr: "frames_of e6 = frames_of e4"
    by (intro ext) (simp add: frames_of_def keep6 keep5)
  have "outer_iteration P custom h v f c seq Nk e = Inr e6"
    unfolding outer_iteration_def Let_def e2_def [symmetric]
    using assms(1) e4(1) e5 e6 by simp
  then show ?thesis
    using len4 e4(2) keep5 keep6 fr by auto
qed

lemma propagate_packed:
  assumes "seq_output_freq seq = freq_packed"
    and "hook_keeps_files custom"
    and "keeps_files h" and "keeps_files v" and "keeps_files f"
  shows "(\<forall>k<no_int_states P. \<not> fs_fail e (Seq_filename c k)) \<Longrightarrow>
         \<exists>e'. propagate P custom h v f c seq Nk Na i e = Inr e' \<and> fs_fail e' = fs_fail e
              \<and> (\<forall>k<no_int_states P. length (frames_of e' (Seq_filename c k)) =
                       length (frames_of e (Seq_filename c k)) + nat (Na + 1 - i))"
proof (induction "nat (Na + 1 - i)" arbitrary: i e)
  case 0
  then have "\<not> i \<le> Na" by simp
  then show ?case
    by (subst propagate.simps) simp
next
  case (Suc n)
  then have i: "i \<le> Na" and n: "n = nat (Na + 1 - (i + 1))"
    by simp_all
  from outer_iteration_packed [OF assms Suc.prems, of Nk] obtain e1 where
    e1: "outer_iteration P custom h v f c seq Nk e = Inr e1" "fs_fail e1 = fs_fail e"
    and len1: "\<forall>k<no_int_states P. length (frames_of e1 (Seq_filename c k)) =
                 Suc (length (frames_of e (Seq_filename c k)))"
    by auto
  have "\<forall>k<no_int_states P. \<not> fs_fail e1 (Seq_filename c k)"
    using Suc.prems e1(2) by simp
  from Suc.hyps(1) [OF n this] obtain e' where
    e': "propagate P custom h v f c seq Nk Na (i + 1) e1 = Inr e'" "fs_fail e' = fs_fail e1"
    and len: "\<forall>k<no_int_states P. length (frames_of e' (Seq_filename c k)) =
                length (frames_of e1 (Seq_filename c k)) + nat (Na + 1 - (i + 1))"
    by auto
  have "propagate P custom h v f c seq Nk Na i e = Inr e'"
    using i e1(1) e'(1) by (subst propagate.simps) simp
  moreover have "nat (Na + 1 - i) = Suc (nat (Na + 1 - (i + 1)))"
    using i by simp
  ultimately show ?case
    using e'(2) e1(2) len len1 by simp
qed

lemma propagate_split:
  assumes "j \<le> Na"
  shows "i \<le> j + 1 \<Longrightarrow>
         propagate P custom h v f c seq Nk Na i e =
           (case propagate P custom h v f c seq Nk j i e of
              Inl x \<Rightarrow> Inl x
            | Inr ej \<Rightarrow> propagate P custom h v f c seq Nk Na (j + 1) ej)"
proof (induction "nat (j + 1 - i)" arbitrary: i e)
  case 0
  then have i: "i = j + 1" by simp
  have "propagate P custom h v f c seq Nk j i e = Inr e"
    using i by (subst propagate.simps) simp
  then show ?case
    using i by simp
next
  case (Suc n)
  then have i: "i \<le> j" "i \<le> Na" and n: "n = nat (j + 1 - (i + 1))" and le: "i + 1 \<le> j + 1"
    using assms by simp_all
  have L: "propagate P custom h v f c seq Nk Na i e =
             (case outer_iteration P custom h v f c seq Nk e of
                Inl x \<Rightarrow> Inl x
              | Inr e1 \<Rightarrow> propagate P custom h v f c seq Nk Na (i + 1) e1)"
    using i(2) by (subst propagate.simps) simp
  have M: "propagate P custom h v f c seq Nk j i e =
             (case outer_iteration P custom h v f c seq Nk e of
                Inl x \<Rightarrow> Inl x
              | Inr e1 \<Rightarrow> propagate P custom h v f c seq Nk j (i + 1) e1)"
    using i(1) by (subst propagate.simps) simp
  show ?case
    unfolding L M
    using Suc.hyps(1) [OF n le]
    by (cases "outer_iteration P custom h v f c seq Nk e") simp_all
qed

lemma stage_end_packed:
  assumes "seq_output_freq seq = freq_packed" and "hook_keeps_files custom"
  shows "\<exists>e'. stage_end P custom seq e = Inr e' \<and> fs e' = fs e \<and> fs_fail e' = fs_fail e"
proof -
  obtain e2 where
    e2: "(if seq_compute_pn_freq seq = freq_last then print_pn P e else Inr e) = Inr e2"
    and keep2: "fs e2 = fs e" "fs_fail e2 = fs_fail e"
    using print_pn_ok [of P e] by (cases "seq_compute_pn_freq seq = freq_last") auto
  obtain e3 where
    e3: "(case custom of
            Some fct \<Rightarrow> if seq_custom_freq seq = freq_last then Inr (fct seq e2) else Inr e2
          | None \<Rightarrow> Inr e2) = (Inr e3 :: failure \<times> CRT_Base + CRT_Base)"
    and keep3: "fs e3 = fs e2" "fs_fail e3 = fs_fail e2"
    using custom_call_ok [OF assms(2), where b = "seq_custom_freq seq = freq_last" and seq = seq and e = e2] by auto
  have "stage_end P custom seq e = Inr e3"
    using assms(1) e2 e3 by (simp add: stage_end_def)
  then show ?thesis
    using keep2 keep3 by simp
qed


text \<open>
  C9. Take a stage whose name the map knows and whose counts are defined, files
  \<^verbatim>\<open>Seq_<stage>_<component>.bin\<close> that can be opened, and a custom function that leaves
  the files alone. The set-up of the stage removes the packed file of every component
  before the loop starts. With the packed cadence, after \<open>j\<close> of the \<open>Na\<close> outer
  iterations the file of a component holds exactly \<open>j\<close> frames (so none of an earlier
  run under the same stage number), and after the stage it holds exactly \<open>Na\<close> frames
  (none when \<open>Na\<close> is negative).
\<close>

theorem packed_files_per_stage:
  assumes "hook_keeps_files custom"
    and "m_map_stepfcts P (seq_name seq) = Some step_fct"
    and "stage_Na seq = Some Na"
    and "\<forall>k<no_int_states P. \<not> fs_fail e (Seq_filename c k)"
    and "k < no_int_states P"
  shows "\<exists>e1. stage_begin P c seq e = Inr (step_fct, seq_Nk seq, Na, e1)
      \<and> fs e1 (Seq_filename c k) = None
      \<and> (seq_output_freq seq = freq_packed \<longrightarrow>
           (\<forall>j. 0 \<le> j \<and> j \<le> Na \<longrightarrow>
              (\<exists>ej. propagate P custom (Do_FT_Step_half_Wrapper P) step_fct
                       (Do_FT_Step_full_Wrapper P) c seq (seq_Nk seq) j 1 e1 = Inr ej
                   \<and> length (frames_of ej (Seq_filename c k)) = nat j
                   \<and> propagate P custom (Do_FT_Step_half_Wrapper P) step_fct
                       (Do_FT_Step_full_Wrapper P) c seq (seq_Nk seq) Na 1 e1 =
                     propagate P custom (Do_FT_Step_half_Wrapper P) step_fct
                       (Do_FT_Step_full_Wrapper P) c seq (seq_Nk seq) Na (j + 1) ej))
         \<and> (\<exists>e'. run_stage P custom (Do_FT_Step_half_Wrapper P) (Do_FT_Step_full_Wrapper P)
                     c seq e = Inr e'
                 \<and> length (frames_of e' (Seq_filename c k)) = nat Na))"
proof -
  define e1 where
    "e1 = remove_packed P c
            (if Get_dt e \<noteq> seq_dt seq
             then Set_dt (seq_dt seq)
                    (e\<lparr> cout := cout e @ stage_report P c seq Na (seq_Nk seq) \<rparr>)
             else e\<lparr> cout := cout e @ stage_report P c seq Na (seq_Nk seq) \<rparr>)"
  have start: "stage_begin P c seq e = Inr (step_fct, seq_Nk seq, Na, e1)"
    unfolding e1_def by (rule stage_begin_ok [OF assms(3,2)])
  have gone: "fs e1 (Seq_filename c k') = None" if "k' < no_int_states P" for k'
    using that unfolding e1_def by (auto simp add: remove_packed_fs)
  have empty: "length (frames_of e1 (Seq_filename c k')) = 0" if "k' < no_int_states P" for k'
    using gone [OF that] by (simp add: frames_of_def)
  have "fs_fail e1 = fs_fail e"
    unfolding e1_def by (simp add: remove_packed_frame Set_dt_def)
  then have can_open: "\<forall>k<no_int_states P. \<not> fs_fail e1 (Seq_filename c k)"
    using assms(4) by simp
  note keep = wrappers_keep_files(1) [of P] registered_keeps_files [OF assms(2)]
    wrappers_keep_files(2) [of P]
  have loop: "\<exists>ej. propagate P custom (Do_FT_Step_half_Wrapper P) step_fct
                      (Do_FT_Step_full_Wrapper P) c seq (seq_Nk seq) j 1 e1 = Inr ej
                  \<and> fs_fail ej = fs_fail e1
                  \<and> length (frames_of ej (Seq_filename c k)) = nat j"
    if "seq_output_freq seq = freq_packed" for j
    using propagate_packed [OF that assms(1) keep can_open, of "seq_Nk seq" j 1] assms(5) empty
    by auto
  have prefix: "\<exists>ej. propagate P custom (Do_FT_Step_half_Wrapper P) step_fct
                        (Do_FT_Step_full_Wrapper P) c seq (seq_Nk seq) j 1 e1 = Inr ej
                    \<and> length (frames_of ej (Seq_filename c k)) = nat j
                    \<and> propagate P custom (Do_FT_Step_half_Wrapper P) step_fct
                        (Do_FT_Step_full_Wrapper P) c seq (seq_Nk seq) Na 1 e1 =
                      propagate P custom (Do_FT_Step_half_Wrapper P) step_fct
                        (Do_FT_Step_full_Wrapper P) c seq (seq_Nk seq) Na (j + 1) ej"
    if "seq_output_freq seq = freq_packed" and "0 \<le> j" and "j \<le> Na" for j
  proof -
    from loop [OF that(1), of j] obtain ej where
      ej: "propagate P custom (Do_FT_Step_half_Wrapper P) step_fct
             (Do_FT_Step_full_Wrapper P) c seq (seq_Nk seq) j 1 e1 = Inr ej"
      and len: "length (frames_of ej (Seq_filename c k)) = nat j"
      by auto
    have "1 \<le> j + 1" using that(2) by simp
    from propagate_split [OF that(3) this, of P custom "Do_FT_Step_half_Wrapper P" step_fct
        "Do_FT_Step_full_Wrapper P" c seq "seq_Nk seq" e1]
    show ?thesis
      using ej len by simp
  qed
  have whole: "\<exists>e'. run_stage P custom (Do_FT_Step_half_Wrapper P) (Do_FT_Step_full_Wrapper P)
                       c seq e = Inr e'
                   \<and> length (frames_of e' (Seq_filename c k)) = nat Na"
    if "seq_output_freq seq = freq_packed"
  proof -
    from loop [OF that, of Na] obtain e2 where
      e2: "propagate P custom (Do_FT_Step_half_Wrapper P) step_fct
             (Do_FT_Step_full_Wrapper P) c seq (seq_Nk seq) Na 1 e1 = Inr e2"
      and len: "length (frames_of e2 (Seq_filename c k)) = nat Na"
      by auto
    from stage_end_packed [OF that assms(1), of P e2] obtain e' where
      e': "stage_end P custom seq e2 = Inr e'" "fs e' = fs e2"
      by auto
    have "run_stage P custom (Do_FT_Step_half_Wrapper P) (Do_FT_Step_full_Wrapper P) c seq e = Inr e'"
      by (simp add: run_stage_def start e2 e'(1))
    moreover have "frames_of e' (Seq_filename c k) = frames_of e2 (Seq_filename c k)"
      by (simp add: frames_of_def e'(2))
    ultimately show ?thesis
      using len by simp
  qed
  show ?thesis
    using start gone [OF assms(5)] prefix whole by blast
qed

theorem packed_files_per_stage_witness:
  "\<exists>e1. stage_begin ex_P 1 ex_seq ex_e = Inr (Do_NL_Step_Wrapper ex_P, 2, 5, e1)
      \<and> fs e1 (Seq_filename 1 0) = None
      \<and> (\<exists>ej. propagate ex_P None (Do_FT_Step_half_Wrapper ex_P) (Do_NL_Step_Wrapper ex_P)
                  (Do_FT_Step_full_Wrapper ex_P) 1 ex_seq 2 3 1 e1 = Inr ej
              \<and> length (frames_of ej (Seq_filename 1 0)) = 3)
      \<and> (\<exists>e'. run_stage ex_P None (Do_FT_Step_half_Wrapper ex_P) (Do_FT_Step_full_Wrapper ex_P)
                  1 ex_seq ex_e = Inr e'
              \<and> length (frames_of e' (Seq_filename 1 0)) = 5)"
proof -
  have hook: "hook_keeps_files None"
    by (simp add: hook_keeps_files_def)
  have name: "m_map_stepfcts ex_P (seq_name ex_seq) = Some (Do_NL_Step_Wrapper ex_P)"
    by (simp add: m_map_stepfcts_def ex_seq_def)
  have Na: "stage_Na ex_seq = Some 5"
    by (rule stage_Na_ex_seq)
  have can_open: "\<forall>k<no_int_states ex_P. \<not> fs_fail ex_e (Seq_filename 1 k)"
    by (simp add: ex_e_def)
  have k: "0 < no_int_states ex_P"
    by (simp add: ex_P_def)
  have packed: "seq_output_freq ex_seq = freq_packed" and Nk: "seq_Nk ex_seq = 2"
    by (simp_all add: ex_seq_def)
  from packed_files_per_stage [OF hook name Na can_open k]
  obtain e1 where
    b: "stage_begin ex_P 1 ex_seq ex_e = Inr (Do_NL_Step_Wrapper ex_P, 2, 5, e1)"
    and g: "fs e1 (Seq_filename 1 0) = None"
    and p: "\<And>j. 0 \<le> j \<Longrightarrow> j \<le> 5 \<Longrightarrow>
              \<exists>ej. propagate ex_P None (Do_FT_Step_half_Wrapper ex_P) (Do_NL_Step_Wrapper ex_P)
                      (Do_FT_Step_full_Wrapper ex_P) 1 ex_seq 2 j 1 e1 = Inr ej
                  \<and> length (frames_of ej (Seq_filename 1 0)) = nat j"
    and w: "\<exists>e'. run_stage ex_P None (Do_FT_Step_half_Wrapper ex_P) (Do_FT_Step_full_Wrapper ex_P)
                    1 ex_seq ex_e = Inr e'
                \<and> length (frames_of e' (Seq_filename 1 0)) = nat 5"
    unfolding Nk using packed by blast
  show ?thesis
    using b g p [of 3] w by auto
qed

subsection \<open>The steps do not read what the run has written\<close>















subsection \<open>The outputs of a stage\<close>
















subsection \<open>The simulated time\<close>














end
